theory Spec2Isabelle
  imports Complex_Main "HOL-Library.Multiset"
begin

section \<open>Cascaded shadow maps and the min/max reducer\<close>

text \<open>
  A shallow embedding of \<^verbatim>\<open>CSMShadowGenerator\<close> and \<^verbatim>\<open>MinMaxReducer\<close>
  (both in \<^verbatim>\<open>src/src/MainGUI.tsx\<close>).

  Conventions of the embedding:
  \<^item> a protected field \<^verbatim>\<open>_x\<close> of \<^verbatim>\<open>CSMShadowGenerator\<close> is the record field \<open>p_x\<close>
    (\<open>r_x\<close> for \<^verbatim>\<open>MinMaxReducer\<close>); the public getter \<^verbatim>\<open>get x()\<close> is the function \<open>x\<close>
    (\<open>get_x\<close> for the per-cascade properties, whose names are also members of the
    renderer) and the setter \<^verbatim>\<open>set x(v)\<close> is \<open>set_x\<close>;
  \<^item> a TypeScript \<^verbatim>\<open>number\<close> that holds a quantity (distances, biases, depths,
    matrix entries) is a mathematical \<open>real\<close>: rounding, infinities and NaN of IEEE
    doubles are outside the model. A \<^verbatim>\<open>number\<close> that is an index, a count or an
    enumeration constant is an \<open>int\<close> (or a \<open>nat\<close> where the source only ever
    counts upwards from zero);
  \<^item> objects compared by reference (meshes, textures, observers) carry a numeric
    identity;
  \<^item> mutation is explicit state passing: a method takes the generator and returns the
    updated generator.
\<close>

subsection \<open>Collaborators from babylonjs\<close>

record Camera =
  minZ :: real
  maxZ :: real

text \<open>
  A render target: its identity, the width \<^verbatim>\<open>getSize().width\<close> reports and the
  integer render dimensions \<^verbatim>\<open>getRenderWidth()\<close>, \<^verbatim>\<open>getRenderHeight()\<close>.
\<close>

record RenderTargetTexture =
  rttId :: nat
  sizeWidth :: real
  renderWidth :: int
  renderHeight :: int

text \<open>A 4x4 matrix is its 16 entries.\<close>

type_synonym Matrix = "real list"

text \<open>
  A mesh is a node of the scene graph: its identity and its direct children
  (\<^verbatim>\<open>getChildren()\<close>). \<^verbatim>\<open>getChildMeshes()\<close> lists all descendants.
\<close>

datatype AbstractMesh = Mesh nat "AbstractMesh list"

fun getChildren :: "AbstractMesh \<Rightarrow> AbstractMesh list" where
  "getChildren (Mesh i cs) = cs"

fun getChildMeshes :: "AbstractMesh \<Rightarrow> AbstractMesh list" where
  "getChildMeshes (Mesh i cs) = concat (map (\<lambda>c. c # getChildMeshes c) cs)"

text \<open>The calls a light's uniform buffer receives, in order.\<close>

datatype UniformUpdate =
  UpdateFloat4 string real real real real string
| UpdateFloat2 string real real string

record IShadowLight =
  typeID :: int
  shadowEnabled :: bool
  needCube :: bool
  getDepthMinZ :: "Camera \<Rightarrow> real"
  getDepthMaxZ :: "Camera \<Rightarrow> real"
  uniformBuffer :: "UniformUpdate list"
  meshesMarkedAsLightDirty :: nat

definition markMeshesAsLightDirty :: "IShadowLight \<Rightarrow> IShadowLight" where
  "markMeshesAsLightDirty l = l\<lparr>meshesMarkedAsLightDirty := Suc (meshesMarkedAsLightDirty l)\<rparr>"

text \<open>
  The scene: the global shadow switch, the active camera (if any) and the observers
  registered on \<^verbatim>\<open>onBeforeRenderObservable\<close>, each a handle; \<open>nextObserver\<close> is the
  next fresh handle.
\<close>

record Scene =
  shadowsEnabled :: bool
  activeCamera :: "Camera option"
  onBeforeRenderObservable :: "nat list"
  nextObserver :: nat

definition observable_add :: "Scene \<Rightarrow> nat \<times> Scene" where
  "observable_add sc =
     (nextObserver sc,
      sc\<lparr>onBeforeRenderObservable := onBeforeRenderObservable sc @ [nextObserver sc],
         nextObserver := Suc (nextObserver sc)\<rparr>)"

definition observable_remove :: "nat \<Rightarrow> Scene \<Rightarrow> Scene" where
  "observable_remove ob sc =
     sc\<lparr>onBeforeRenderObservable := remove1 ob (onBeforeRenderObservable sc)\<rparr>"

text \<open>The filter constants of babylonjs' \<^verbatim>\<open>ShadowGenerator\<close>.\<close>

definition FILTER_PCF :: int where
  "FILTER_PCF = 6"

definition FILTER_PCSS :: int where
  "FILTER_PCSS = 7"

subsection \<open>The per-cascade renderer\<close>

text \<open>
  Modelled from the spec: the class \<^verbatim>\<open>CSMShadowMap\<close> (\<^verbatim>\<open>./csmShadowMap\<close>) is not among
  the sources. The spec describes it as one standard shadow-map renderer per cascade
  that exposes the settings bias, normalBias, blur*, filter, darkness, transparency,
  backface, depthClamp, its view and transform matrices and its shadow map. It is the
  record of exactly the members \<^verbatim>\<open>CSMShadowGenerator\<close> reads or assigns; an assignment
  to a member stores the value. The shared caster list (\<^verbatim>\<open>generator.renderList\<close>) and
  the back reference \<^verbatim>\<open>generator.cascade\<close> are aliases of the owner's data and are
  not duplicated here.
\<close>

record CSMShadowMap =
  bias :: real
  normalBias :: real
  blurBoxOffset :: real
  blurScale :: real
  blurKernel :: real
  useKernelBlur :: bool
  depthScale :: real
  filter' :: int
  filteringQuality :: int
  contactHardeningLightSizeUVRatio :: real
  darkness :: real
  transparencyShadow :: bool
  forceBackFacesOnly :: bool
  depthClamp :: bool
  viewMatrix :: Matrix
  transformMatrix :: Matrix
  shadowMap :: "RenderTargetTexture option"
  shadowMapForRendering :: "RenderTargetTexture option"
  frustumEdgeFalloff :: real
  disposed :: bool
  recreated :: nat

definition getTransformMatrix :: "CSMShadowMap \<Rightarrow> Matrix" where
  "getTransformMatrix g = transformMatrix g"

definition getShadowMap :: "CSMShadowMap \<Rightarrow> RenderTargetTexture option" where
  "getShadowMap g = shadowMap g"

definition getShadowMapForRendering :: "CSMShadowMap \<Rightarrow> RenderTargetTexture option" where
  "getShadowMapForRendering g = shadowMapForRendering g"

definition getDarkness :: "CSMShadowMap \<Rightarrow> real" where
  "getDarkness g = darkness g"

definition dispose_map :: "CSMShadowMap \<Rightarrow> CSMShadowMap" where
  "dispose_map g = g\<lparr>disposed := True\<rparr>"

definition recreate_map :: "CSMShadowMap \<Rightarrow> CSMShadowMap" where
  "recreate_map g = g\<lparr>recreated := Suc (recreated g)\<rparr>"

subsection \<open>The generator's state\<close>

record ICascade =
  generator :: CSMShadowMap
  prevSplitDistance :: real
  splitDistance :: real

record CSMShadowGenerator =
  p_activeCascade :: int
  p_numCascades :: int
  p_lambda :: real
  p_minDistance :: real
  p_maxDistance :: real
  p_stabilizeCascades :: bool
  p_useRightDirectionAsUpForOrthoProj :: bool
  p_freezeShadowCastersBoundingInfo :: bool
  p_freezeShadowCastersBoundingInfoObservable :: "nat option"
  p_debug :: bool
  p_cascades :: "ICascade list"
  p_renderList :: "AbstractMesh list"
  p_light :: IShadowLight
  p_scene :: Scene
  p_mapSize :: real
  p_usefulFloatFirst :: "bool option"
  p_lightMatrices :: "real list"
  p_samplers :: "RenderTargetTexture option list"
  p_cascadeDepths :: "real option list"

definition CASCADE_ALL :: int where
  "CASCADE_ALL = - 1"

definition CASCADE_1 :: int where
  "CASCADE_1 = 0"

subsection \<open>Plain accessors\<close>

definition activeCascade :: "CSMShadowGenerator \<Rightarrow> int" where
  "activeCascade s = p_activeCascade s"

definition set_activeCascade :: "int \<Rightarrow> CSMShadowGenerator \<Rightarrow> CSMShadowGenerator" where
  "set_activeCascade index s =
     (let index' = (if index \<noteq> CASCADE_ALL \<and> (index < 0 \<or> index \<ge> p_numCascades s)
                    then 0 else index)
      in s\<lparr>p_activeCascade := index'\<rparr>)"

definition numCascades :: "CSMShadowGenerator \<Rightarrow> int" where
  "numCascades s = p_numCascades s"

definition lambda :: "CSMShadowGenerator \<Rightarrow> real" where
  "lambda s = p_lambda s"

definition minDistance :: "CSMShadowGenerator \<Rightarrow> real" where
  "minDistance s = p_minDistance s"

definition set_minDistance :: "real \<Rightarrow> CSMShadowGenerator \<Rightarrow> CSMShadowGenerator" where
  "set_minDistance v s = s\<lparr>p_minDistance := v\<rparr>"

definition maxDistance :: "CSMShadowGenerator \<Rightarrow> real" where
  "maxDistance s = p_maxDistance s"

definition set_maxDistance :: "real \<Rightarrow> CSMShadowGenerator \<Rightarrow> CSMShadowGenerator" where
  "set_maxDistance v s = s\<lparr>p_maxDistance := v\<rparr>"

definition set_debug :: "bool \<Rightarrow> CSMShadowGenerator \<Rightarrow> CSMShadowGenerator" where
  "set_debug dbg s = s\<lparr>p_debug := dbg, p_light := markMeshesAsLightDirty (p_light s)\<rparr>"

definition renderList :: "CSMShadowGenerator \<Rightarrow> AbstractMesh list" where
  "renderList s = p_renderList s"

definition mustRender :: "CSMShadowGenerator \<Rightarrow> bool" where
  "mustRender s = (length (renderList s) > 0)"

text \<open>
  The setter of \<^verbatim>\<open>freezeShadowCastersBoundingInfo\<close> registers or removes the per-frame
  hook. The recomputation of the bounding volume it triggers reads the meshes' world
  bounding boxes, which no property below depends on; the volume is not part of the
  state here.
\<close>

definition set_freezeShadowCastersBoundingInfo ::
  "bool \<Rightarrow> CSMShadowGenerator \<Rightarrow> CSMShadowGenerator" where
  "set_freezeShadowCastersBoundingInfo freeze s =
     (let s1 = (case p_freezeShadowCastersBoundingInfoObservable s of
                  Some ob \<Rightarrow>
                    if freeze
                    then s\<lparr>p_scene := observable_remove ob (p_scene s),
                           p_freezeShadowCastersBoundingInfoObservable := None\<rparr>
                    else s
                | None \<Rightarrow> s);
          s2 = (case p_freezeShadowCastersBoundingInfoObservable s1 of
                  None \<Rightarrow>
                    if \<not> freeze
                    then (let (ob, sc) = observable_add (p_scene s1)
                          in s1\<lparr>p_scene := sc,
                                p_freezeShadowCastersBoundingInfoObservable := Some ob\<rparr>)
                    else s1
                | Some ob \<Rightarrow> s1)
      in s2\<lparr>p_freezeShadowCastersBoundingInfo := freeze\<rparr>)"

subsection \<open>Per-cascade property getters\<close>

definition cascade :: "CSMShadowGenerator \<Rightarrow> ICascade option" where
  "cascade s =
     (if p_activeCascade s \<ge> 0 \<and> p_activeCascade s < int (length (p_cascades s))
      then Some (p_cascades s ! nat (p_activeCascade s)) else None)"

definition get_bias :: "CSMShadowGenerator \<Rightarrow> real" where
  "get_bias s =
     (if p_activeCascade s \<ge> 0 \<and> p_activeCascade s < int (length (p_cascades s))
      then bias (generator (p_cascades s ! nat (p_activeCascade s))) else - 1)"

definition get_normalBias :: "CSMShadowGenerator \<Rightarrow> real" where
  "get_normalBias s =
     (if p_activeCascade s \<ge> 0 \<and> p_activeCascade s < int (length (p_cascades s))
      then normalBias (generator (p_cascades s ! nat (p_activeCascade s))) else - 1)"

definition get_blurBoxOffset :: "CSMShadowGenerator \<Rightarrow> real" where
  "get_blurBoxOffset s =
     (if p_activeCascade s \<ge> 0 \<and> p_activeCascade s < int (length (p_cascades s))
      then blurBoxOffset (generator (p_cascades s ! nat (p_activeCascade s))) else - 1)"

definition get_blurScale :: "CSMShadowGenerator \<Rightarrow> real" where
  "get_blurScale s =
     (if p_activeCascade s \<ge> 0 \<and> p_activeCascade s < int (length (p_cascades s))
      then blurScale (generator (p_cascades s ! nat (p_activeCascade s))) else - 1)"

definition get_blurKernel :: "CSMShadowGenerator \<Rightarrow> real" where
  "get_blurKernel s =
     (if p_activeCascade s \<ge> 0 \<and> p_activeCascade s < int (length (p_cascades s))
      then blurKernel (generator (p_cascades s ! nat (p_activeCascade s))) else - 1)"

definition get_useKernelBlur :: "CSMShadowGenerator \<Rightarrow> bool" where
  "get_useKernelBlur s =
     (if p_activeCascade s \<ge> 0 \<and> p_activeCascade s < int (length (p_cascades s))
      then useKernelBlur (generator (p_cascades s ! nat (p_activeCascade s))) else False)"

definition get_depthScale :: "CSMShadowGenerator \<Rightarrow> real" where
  "get_depthScale s =
     (if p_activeCascade s \<ge> 0 \<and> p_activeCascade s < int (length (p_cascades s))
      then depthScale (generator (p_cascades s ! nat (p_activeCascade s))) else - 1)"

definition get_filter :: "CSMShadowGenerator \<Rightarrow> int" where
  "get_filter s =
     (if p_activeCascade s \<ge> 0 \<and> p_activeCascade s < int (length (p_cascades s))
      then filter' (generator (p_cascades s ! nat (p_activeCascade s))) else - 1)"

definition get_filteringQuality :: "CSMShadowGenerator \<Rightarrow> int" where
  "get_filteringQuality s =
     (if p_activeCascade s \<ge> 0 \<and> p_activeCascade s < int (length (p_cascades s))
      then filteringQuality (generator (p_cascades s ! nat (p_activeCascade s))) else - 1)"

definition get_contactHardeningLightSizeUVRatio :: "CSMShadowGenerator \<Rightarrow> real" where
  "get_contactHardeningLightSizeUVRatio s =
     (if p_activeCascade s \<ge> 0 \<and> p_activeCascade s < int (length (p_cascades s))
      then contactHardeningLightSizeUVRatio (generator (p_cascades s ! nat (p_activeCascade s)))
      else - 1)"

definition get_darkness :: "CSMShadowGenerator \<Rightarrow> real" where
  "get_darkness s =
     (if p_activeCascade s \<ge> 0 \<and> p_activeCascade s < int (length (p_cascades s))
      then darkness (generator (p_cascades s ! nat (p_activeCascade s))) else - 1)"

definition get_transparencyShadow :: "CSMShadowGenerator \<Rightarrow> bool" where
  "get_transparencyShadow s =
     (if p_activeCascade s \<ge> 0 \<and> p_activeCascade s < int (length (p_cascades s))
      then transparencyShadow (generator (p_cascades s ! nat (p_activeCascade s))) else False)"

definition get_forceBackFacesOnly :: "CSMShadowGenerator \<Rightarrow> bool" where
  "get_forceBackFacesOnly s =
     (if p_activeCascade s \<ge> 0 \<and> p_activeCascade s < int (length (p_cascades s))
      then forceBackFacesOnly (generator (p_cascades s ! nat (p_activeCascade s))) else False)"

definition get_depthClamp :: "CSMShadowGenerator \<Rightarrow> bool" where
  "get_depthClamp s =
     (if p_activeCascade s \<ge> 0 \<and> p_activeCascade s < int (length (p_cascades s))
      then depthClamp (generator (p_cascades s ! nat (p_activeCascade s))) else False)"

definition get_viewMatrix :: "CSMShadowGenerator \<Rightarrow> Matrix option" where
  "get_viewMatrix s =
     (if p_activeCascade s \<ge> 0 \<and> p_activeCascade s < int (length (p_cascades s))
      then Some (viewMatrix (generator (p_cascades s ! nat (p_activeCascade s)))) else None)"

subsection \<open>Per-cascade property setters\<close>

text \<open>
  \<^verbatim>\<open>_getActiveCascades(forceAll = true)\<close> returns cascade objects, which the setters
  then mutate in place. The model returns the positions of those objects in
  \<open>p_cascades\<close>; \<open>forEach_cascade\<close> applies the assignment at each position.
\<close>

definition getActiveCascades :: "bool \<Rightarrow> CSMShadowGenerator \<Rightarrow> nat list" where
  "getActiveCascades forceAll s =
     (if p_activeCascade s = CASCADE_ALL \<or> forceAll then [0..<length (p_cascades s)]
      else if p_activeCascade s \<ge> 0 \<and> p_activeCascade s < int (length (p_cascades s))
           then [nat (p_activeCascade s)] else [])"

definition forEach_cascade ::
  "nat list \<Rightarrow> (ICascade \<Rightarrow> ICascade) \<Rightarrow> CSMShadowGenerator \<Rightarrow> CSMShadowGenerator" where
  "forEach_cascade idxs f s =
     s\<lparr>p_cascades := fold (\<lambda>i cs. cs[i := f (cs ! i)]) idxs (p_cascades s)\<rparr>"

definition set_bias :: "real \<Rightarrow> CSMShadowGenerator \<Rightarrow> CSMShadowGenerator" where
  "set_bias v s =
     forEach_cascade (getActiveCascades True s)
       (\<lambda>c. c\<lparr>generator := (generator c)\<lparr>bias := v\<rparr>\<rparr>) s"

definition set_normalBias :: "real \<Rightarrow> CSMShadowGenerator \<Rightarrow> CSMShadowGenerator" where
  "set_normalBias v s =
     forEach_cascade (getActiveCascades True s)
       (\<lambda>c. c\<lparr>generator := (generator c)\<lparr>normalBias := v\<rparr>\<rparr>) s"

definition set_blurBoxOffset :: "real \<Rightarrow> CSMShadowGenerator \<Rightarrow> CSMShadowGenerator" where
  "set_blurBoxOffset v s =
     forEach_cascade (getActiveCascades True s)
       (\<lambda>c. c\<lparr>generator := (generator c)\<lparr>blurBoxOffset := v\<rparr>\<rparr>) s"

definition set_blurScale :: "real \<Rightarrow> CSMShadowGenerator \<Rightarrow> CSMShadowGenerator" where
  "set_blurScale v s =
     forEach_cascade (getActiveCascades True s)
       (\<lambda>c. c\<lparr>generator := (generator c)\<lparr>blurScale := v\<rparr>\<rparr>) s"

definition set_blurKernel :: "real \<Rightarrow> CSMShadowGenerator \<Rightarrow> CSMShadowGenerator" where
  "set_blurKernel v s =
     forEach_cascade (getActiveCascades True s)
       (\<lambda>c. c\<lparr>generator := (generator c)\<lparr>blurKernel := v\<rparr>\<rparr>) s"

definition set_useKernelBlur :: "bool \<Rightarrow> CSMShadowGenerator \<Rightarrow> CSMShadowGenerator" where
  "set_useKernelBlur v s =
     forEach_cascade (getActiveCascades True s)
       (\<lambda>c. c\<lparr>generator := (generator c)\<lparr>useKernelBlur := v\<rparr>\<rparr>) s"

definition set_depthScale :: "real \<Rightarrow> CSMShadowGenerator \<Rightarrow> CSMShadowGenerator" where
  "set_depthScale v s =
     forEach_cascade (getActiveCascades True s)
       (\<lambda>c. c\<lparr>generator := (generator c)\<lparr>depthScale := v\<rparr>\<rparr>) s"

definition set_filter :: "int \<Rightarrow> CSMShadowGenerator \<Rightarrow> CSMShadowGenerator" where
  "set_filter v s =
     forEach_cascade (getActiveCascades True s)
       (\<lambda>c. c\<lparr>generator := (generator c)\<lparr>filter' := v\<rparr>\<rparr>) s"

definition set_filteringQuality :: "int \<Rightarrow> CSMShadowGenerator \<Rightarrow> CSMShadowGenerator" where
  "set_filteringQuality v s =
     forEach_cascade (getActiveCascades True s)
       (\<lambda>c. c\<lparr>generator := (generator c)\<lparr>filteringQuality := v\<rparr>\<rparr>) s"

definition set_contactHardeningLightSizeUVRatio ::
  "real \<Rightarrow> CSMShadowGenerator \<Rightarrow> CSMShadowGenerator" where
  "set_contactHardeningLightSizeUVRatio v s =
     forEach_cascade (getActiveCascades True s)
       (\<lambda>c. c\<lparr>generator := (generator c)\<lparr>contactHardeningLightSizeUVRatio := v\<rparr>\<rparr>) s"

definition set_darkness :: "real \<Rightarrow> CSMShadowGenerator \<Rightarrow> CSMShadowGenerator" where
  "set_darkness v s =
     forEach_cascade (getActiveCascades True s)
       (\<lambda>c. c\<lparr>generator := (generator c)\<lparr>darkness := v\<rparr>\<rparr>) s"

definition set_transparencyShadow :: "bool \<Rightarrow> CSMShadowGenerator \<Rightarrow> CSMShadowGenerator" where
  "set_transparencyShadow v s =
     forEach_cascade (getActiveCascades True s)
       (\<lambda>c. c\<lparr>generator := (generator c)\<lparr>transparencyShadow := v\<rparr>\<rparr>) s"

definition set_forceBackFacesOnly :: "bool \<Rightarrow> CSMShadowGenerator \<Rightarrow> CSMShadowGenerator" where
  "set_forceBackFacesOnly v s =
     forEach_cascade (getActiveCascades True s)
       (\<lambda>c. c\<lparr>generator := (generator c)\<lparr>forceBackFacesOnly := v\<rparr>\<rparr>) s"

definition set_depthClamp :: "bool \<Rightarrow> CSMShadowGenerator \<Rightarrow> CSMShadowGenerator" where
  "set_depthClamp v s =
     forEach_cascade (getActiveCascades True s)
       (\<lambda>c. c\<lparr>generator := (generator c)\<lparr>depthClamp := v\<rparr>\<rparr>) s"

subsection \<open>Shadow casters\<close>

text \<open>
  \<^verbatim>\<open>Array.prototype.indexOf\<close>: the first position holding the element, or -1.
  \<^verbatim>\<open>splice(index, 1)\<close> removes the element at that position.
\<close>

fun indexOf :: "'a list \<Rightarrow> 'a \<Rightarrow> int" where
  "indexOf [] x = - 1"
| "indexOf (y # ys) x =
     (if y = x then 0 else (if indexOf ys x = - 1 then - 1 else indexOf ys x + 1))"

definition splice1 :: "nat \<Rightarrow> 'a list \<Rightarrow> 'a list" where
  "splice1 i xs = take i xs @ drop (Suc i) xs"

definition addShadowCaster ::
  "AbstractMesh \<Rightarrow> bool \<Rightarrow> CSMShadowGenerator \<Rightarrow> CSMShadowGenerator" where
  "addShadowCaster mesh includeDescendants s =
     (let s1 = s\<lparr>p_renderList := p_renderList s @ [mesh]\<rparr>
      in if includeDescendants
         then s1\<lparr>p_renderList := p_renderList s1 @ getChildMeshes mesh\<rparr>
         else s1)"

definition removeFirst :: "AbstractMesh \<Rightarrow> CSMShadowGenerator \<Rightarrow> CSMShadowGenerator" where
  "removeFirst mesh s =
     (let index = indexOf (p_renderList s) mesh
      in if index \<noteq> - 1 then s\<lparr>p_renderList := splice1 (nat index) (p_renderList s)\<rparr> else s)"

fun removeShadowCaster ::
  "AbstractMesh \<Rightarrow> bool \<Rightarrow> CSMShadowGenerator \<Rightarrow> CSMShadowGenerator" where
  "removeShadowCaster (Mesh i cs) includeDescendants s =
     (let s1 = removeFirst (Mesh i cs) s
      in if includeDescendants
         then fold (\<lambda>child. removeShadowCaster child True) cs s1
         else s1)"

subsection \<open>The split scheme\<close>

text \<open>
  The loop of \<^verbatim>\<open>setDistanceSplit\<close>. The arithmetic is exact: \<^verbatim>\<open>ratio ** p\<close> is
  \<open>ratio powr p\<close> and no operation rounds. The program computes in binary64, so the
  values stored here are the program's only where every intermediate result is
  representable (small integers and dyadic fractions, as at the inputs evaluated
  below). Which cascade is written, in which order, and which value is copied into
  \<open>prevSplitDistance\<close> do not depend on the arithmetic. No property of the stored
  fractions that depends on rounding is stated on this model.
\<close>

function setDistanceSplit_loop ::
  "CSMShadowGenerator \<Rightarrow> real \<Rightarrow> real \<Rightarrow> real \<Rightarrow> real \<Rightarrow> real \<Rightarrow> nat \<Rightarrow>
   ICascade list \<Rightarrow> ICascade list" where
  "setDistanceSplit_loop s near cameraRange minZ' range' ratio cascadeIndex cs =
     (if cascadeIndex < length cs
      then
        (let p = real (cascadeIndex + 1) / real_of_int (p_numCascades s);
             log' = minZ' * (ratio powr p);
             uniform = minZ' + range' * p;
             d = p_lambda s * (log' - uniform) + uniform;
             cs1 = cs[cascadeIndex := (cs ! cascadeIndex)
                      \<lparr>prevSplitDistance :=
                         (if cascadeIndex = 0 then p_minDistance s
                          else splitDistance (cs ! (cascadeIndex - 1)))\<rparr>];
             cs2 = cs1[cascadeIndex := (cs1 ! cascadeIndex)
                      \<lparr>splitDistance := (d - near) / cameraRange\<rparr>]
         in setDistanceSplit_loop s near cameraRange minZ' range' ratio (Suc cascadeIndex) cs2)
      else cs)"
  by pat_completeness auto
termination
  by (relation "measure (\<lambda>(s, near, cameraRange, minZ', range', ratio, i, cs). length cs - i)")
     auto

declare setDistanceSplit_loop.simps [simp del]

definition setDistanceSplit :: "CSMShadowGenerator \<Rightarrow> CSMShadowGenerator" where
  "setDistanceSplit s =
     (case activeCamera (p_scene s) of
        None \<Rightarrow> s
      | Some camera \<Rightarrow>
          (let near = minZ camera;
               far = maxZ camera;
               cameraRange = far - near;
               minZ' = near + p_minDistance s * cameraRange;
               maxZ' = near + p_maxDistance s * cameraRange;
               range' = maxZ' - minZ';
               ratio = maxZ' / minZ'
           in s\<lparr>p_cascades :=
                  setDistanceSplit_loop s near cameraRange minZ' range' ratio 0 (p_cascades s)\<rparr>))"

definition set_lambda :: "real \<Rightarrow> CSMShadowGenerator \<Rightarrow> CSMShadowGenerator" where
  "set_lambda v s = setDistanceSplit (s\<lparr>p_lambda := v\<rparr>)"

subsection \<open>Construction\<close>

text \<open>
  \<open>newMap\<close> stands for \<^verbatim>\<open>new CSMShadowMap(mapSize, light, !!usefulFloatFirst, this)\<close>,
  the constructor of the class that is not among the sources.
\<close>

function initializeCSM_loop ::
  "(real \<Rightarrow> IShadowLight \<Rightarrow> bool \<Rightarrow> CSMShadowMap) \<Rightarrow> nat \<Rightarrow> CSMShadowGenerator \<Rightarrow>
   CSMShadowGenerator" where
  "initializeCSM_loop newMap cascadeIndex s =
     (if int cascadeIndex < p_numCascades s
      then
        (let newCascade =
               \<lparr>generator = newMap (p_mapSize s) (p_light s)
                               (case p_usefulFloatFirst s of None \<Rightarrow> False | Some b \<Rightarrow> b),
                prevSplitDistance = 0,
                splitDistance = 0\<rparr>
         in initializeCSM_loop newMap (Suc cascadeIndex)
              (s\<lparr>p_cascades := p_cascades s @ [newCascade]\<rparr>))
      else s)"
  by pat_completeness auto
termination
  by (relation "measure (\<lambda>(newMap, i, s). nat (p_numCascades s - int i))") auto

declare initializeCSM_loop.simps [simp del]

definition initializeCSM ::
  "(real \<Rightarrow> IShadowLight \<Rightarrow> bool \<Rightarrow> CSMShadowMap) \<Rightarrow> CSMShadowGenerator \<Rightarrow>
   CSMShadowGenerator" where
  "initializeCSM newMap s =
     (let s1 = initializeCSM_loop newMap 0 s;
          s2 = (if p_activeCascade s1 \<noteq> CASCADE_ALL \<and> p_activeCascade s1 \<ge> p_numCascades s1
                then s1\<lparr>p_activeCascade := 0\<rparr> else s1)
      in setDistanceSplit s2)"

definition initializeGenerator ::
  "(real \<Rightarrow> IShadowLight \<Rightarrow> bool \<Rightarrow> CSMShadowMap) \<Rightarrow> CSMShadowGenerator \<Rightarrow>
   CSMShadowGenerator" where
  "initializeGenerator newMap s =
     initializeCSM newMap (s\<lparr>p_light := markMeshesAsLightDirty (p_light s)\<rparr>)"

text \<open>
  The constructor. \<open>scene\<close> is \<^verbatim>\<open>light.getScene()\<close>. The check of the light's type only
  writes to the console and changes nothing;
  \<^verbatim>\<open>ShadowGenerator._SceneComponentInitialization\<close> registers a babylonjs scene component
  and touches none of the fields below. The setter call
  \<^verbatim>\<open>this.freezeShadowCastersBoundingInfo = false\<close> registers the per-frame hook.
\<close>

definition construct ::
  "(real \<Rightarrow> IShadowLight \<Rightarrow> bool \<Rightarrow> CSMShadowMap) \<Rightarrow> Scene \<Rightarrow> real \<Rightarrow> IShadowLight \<Rightarrow>
   int \<Rightarrow> bool option \<Rightarrow> CSMShadowGenerator" where
  "construct newMap scene mapSize light numCascades0 usefulFloatFirst =
     (let numCascades = (if numCascades0 < 1 then 1 else numCascades0);
          s0 = \<lparr>p_activeCascade = CASCADE_ALL,
                p_numCascades = numCascades,
                p_lambda = 0.7,
                p_minDistance = 0,
                p_maxDistance = 1,
                p_stabilizeCascades = False,
                p_useRightDirectionAsUpForOrthoProj = False,
                p_freezeShadowCastersBoundingInfo = False,
                p_freezeShadowCastersBoundingInfoObservable = None,
                p_debug = False,
                p_cascades = [],
                p_renderList = [],
                p_light = light,
                p_scene = scene,
                p_mapSize = mapSize,
                p_usefulFloatFirst = usefulFloatFirst,
                p_lightMatrices = replicate (nat (numCascades * 16)) 0,
                p_samplers = replicate (nat numCascades) None,
                p_cascadeDepths = replicate (nat numCascades) None\<rparr>
      in initializeGenerator newMap (set_freezeShadowCastersBoundingInfo False s0))"

subsection \<open>Numbers in strings\<close>

text \<open>
  String concatenation with a non-negative integer, as in \<^verbatim>\<open>"SHADOWCSM" + lightIndex\<close>:
  the decimal digits of the number.
\<close>

definition digit_char :: "nat \<Rightarrow> char" where
  "digit_char n = ''0123456789'' ! n"

function string_of_nat :: "nat \<Rightarrow> string" where
  "string_of_nat n =
     (if n < 10 then [digit_char n] else string_of_nat (n div 10) @ [digit_char (n mod 10)])"
  by pat_completeness auto
termination
  by (relation "measure id") auto

declare string_of_nat.simps [simp del]

subsection \<open>Shader defines\<close>

datatype DefineValue = DefBool bool | DefNumber int

type_synonym MaterialDefines = "string \<rightharpoonup> DefineValue"

text \<open>
  \<open>base\<close> stands for \<^verbatim>\<open>CSMShadowMap.prepareDefines\<close>, a method of the class that is not
  among the sources; it may rewrite the table in any way.
\<close>

definition prepareDefines ::
  "(CSMShadowMap \<Rightarrow> MaterialDefines \<Rightarrow> nat \<Rightarrow> MaterialDefines) \<Rightarrow> MaterialDefines \<Rightarrow> nat \<Rightarrow>
   CSMShadowGenerator \<Rightarrow> MaterialDefines" where
  "prepareDefines base defines lightIndex s =
     (if \<not> shadowsEnabled (p_scene s) \<or> \<not> shadowEnabled (p_light s) \<or> length (p_cascades s) < 1
      then defines
      else
        (let d0 = base (generator (p_cascades s ! 0)) defines lightIndex;
             d1 = d0(''SHADOWCSM'' @ string_of_nat lightIndex \<mapsto> DefBool True);
             d2 = d1(''SHADOWCSM'' @ string_of_nat lightIndex @ ''_NUMCASCADES''
                       \<mapsto> DefNumber (p_numCascades s))
         in d2(''SHADOWCSM'' @ string_of_nat lightIndex @ ''_DEBUG'' \<mapsto> DefBool (p_debug s))))"

subsection \<open>Binding to a shader\<close>

text \<open>
  The shader-binding target is the sequence of calls it receives. An element
  assignment \<^verbatim>\<open>a[i] = v\<close> on a JavaScript array extends the array when \<open>i\<close> is past
  its end; on a \<^verbatim>\<open>Float32Array\<close> (the target of \<^verbatim>\<open>copyToArray\<close>) a write past the
  end is ignored.
\<close>

datatype EffectCall =
  SetDepthStencilTexture string "RenderTargetTexture option"
| SetMatrices string "real list"
| SetInt string int
| SetTextureArray string "RenderTargetTexture option list"
| SetArray string "real option list"

definition array_set :: "'a option list \<Rightarrow> nat \<Rightarrow> 'a option \<Rightarrow> 'a option list" where
  "array_set xs i v =
     (if i < length xs then xs[i := v] else xs @ replicate (i - length xs) None @ [v])"

definition copyToArray :: "Matrix \<Rightarrow> real list \<Rightarrow> nat \<Rightarrow> real list" where
  "copyToArray m arr offset = fold (\<lambda>(k, v) a. a[offset + k := v]) (enumerate 0 (take 16 m)) arr"

function bindShadowLight_loop ::
  "string \<Rightarrow> Camera \<Rightarrow> real \<Rightarrow> CSMShadowMap \<Rightarrow> ICascade list \<Rightarrow> nat \<Rightarrow>
   CSMShadowGenerator \<times> EffectCall list \<Rightarrow> CSMShadowGenerator \<times> EffectCall list" where
  "bindShadowLight_loop lightIndex camera cameraRange masterGenerator cs cascadeIndex (s, effect) =
     (if cascadeIndex < length cs
      then
        (let c = cs ! cascadeIndex;
             matrix = getTransformMatrix (generator c);
             s1 = s\<lparr>p_lightMatrices := copyToArray matrix (p_lightMatrices s) (cascadeIndex * 16)\<rparr>;
             effect1 =
               (if filter' masterGenerator = FILTER_PCF
                then effect @ [SetDepthStencilTexture
                                 (''shadowSampler'' @ lightIndex @ ''_'' @ string_of_nat cascadeIndex)
                                 (getShadowMapForRendering (generator c))]
                else effect);
             s2 =
               (if filter' masterGenerator = FILTER_PCF then s1
                else s1\<lparr>p_samplers := array_set (p_samplers s1) cascadeIndex
                                          (getShadowMapForRendering (generator c))\<rparr>);
             s3 = s2\<lparr>p_cascadeDepths := array_set (p_cascadeDepths s2) cascadeIndex
                                            (Some (minZ camera + splitDistance c * cameraRange))\<rparr>
         in bindShadowLight_loop lightIndex camera cameraRange masterGenerator cs
              (Suc cascadeIndex) (s3, effect1))
      else (s, effect))"
  by pat_completeness auto
termination
  by (relation "measure (\<lambda>(lightIndex, camera, cameraRange, m, cs, i, se). length cs - i)") auto

declare bindShadowLight_loop.simps [simp del]

definition shadowsInfo :: "CSMShadowMap \<Rightarrow> RenderTargetTexture \<Rightarrow> string \<Rightarrow> UniformUpdate" where
  "shadowsInfo masterGenerator shadowMap0 lightIndex =
     (if filter' masterGenerator = FILTER_PCF
      then UpdateFloat4 ''shadowsInfo'' (getDarkness masterGenerator) (sizeWidth shadowMap0)
             (1 / sizeWidth shadowMap0) (frustumEdgeFalloff masterGenerator) lightIndex
      else if filter' masterGenerator = FILTER_PCSS
      then UpdateFloat4 ''shadowsInfo'' (getDarkness masterGenerator) (1 / sizeWidth shadowMap0)
             (contactHardeningLightSizeUVRatio masterGenerator * sizeWidth shadowMap0)
             (frustumEdgeFalloff masterGenerator) lightIndex
      else UpdateFloat4 ''shadowsInfo'' (getDarkness masterGenerator)
             (blurScale masterGenerator / sizeWidth shadowMap0) (depthScale masterGenerator)
             (frustumEdgeFalloff masterGenerator) lightIndex)"

definition bindShadowLight ::
  "string \<Rightarrow> CSMShadowGenerator \<times> EffectCall list \<Rightarrow> CSMShadowGenerator \<times> EffectCall list" where
  "bindShadowLight lightIndex se =
     (let s = fst se; effect = snd se
      in if \<not> shadowsEnabled (p_scene s) \<or> \<not> shadowEnabled (p_light s) \<or> length (p_cascades s) < 1
         then (s, effect)
         else
           (case activeCamera (p_scene s) of
              None \<Rightarrow> (s, effect)
            | Some camera \<Rightarrow>
                (let masterGenerator = generator (p_cascades s ! 0)
                 in case getShadowMap masterGenerator of
                      None \<Rightarrow> (s, effect)
                    | Some shadowMap0 \<Rightarrow>
                        (let cameraRange = maxZ camera - minZ camera;
                             (s1, effect1) =
                               bindShadowLight_loop lightIndex camera cameraRange masterGenerator
                                 (p_cascades s) 0 (s, effect);
                             effect2 =
                               (if \<not> needCube (p_light s1)
                                then effect1 @ [SetMatrices (''lightMatrix'' @ lightIndex)
                                                  (p_lightMatrices s1)]
                                else effect1);
                             effect3 = effect2 @ [SetInt (''numCascades'' @ lightIndex)
                                                    (int (length (p_cascades s1)))];
                             effect4 =
                               (if filter' masterGenerator \<noteq> FILTER_PCF
                                then effect3 @ [SetTextureArray (''shadowSampler'' @ lightIndex)
                                                  (p_samplers s1)]
                                else effect3);
                             effect5 = effect4 @ [SetArray (''cascadeSplits'' @ lightIndex)
                                                    (p_cascadeDepths s1)];
                             light = p_light s1;
                             light1 = light\<lparr>uniformBuffer := uniformBuffer light @
                                        [shadowsInfo masterGenerator shadowMap0 lightIndex]\<rparr>;
                             light2 = light1\<lparr>uniformBuffer := uniformBuffer light1 @
                                        [UpdateFloat2 ''depthValues'' (getDepthMinZ light1 camera)
                                           (getDepthMinZ light1 camera + getDepthMaxZ light1 camera)
                                           lightIndex]\<rparr>
                         in (s1\<lparr>p_light := light2\<rparr>, effect5)))))"

subsection \<open>Readiness, shadow maps, recreation, disposal\<close>

text \<open>
  \<open>ready_map\<close> stands for \<^verbatim>\<open>CSMShadowMap.isReady(subMesh, useInstances, false)\<close> at the
  given sub-mesh and flag.
\<close>

fun isReady_loop :: "(CSMShadowMap \<Rightarrow> bool) \<Rightarrow> bool \<Rightarrow> ICascade list \<Rightarrow> bool" where
  "isReady_loop ready_map ready [] = ready"
| "isReady_loop ready_map ready (c # cs) =
     (if ready then isReady_loop ready_map (ready \<and> ready_map (generator c)) cs else ready)"

definition isReady :: "(CSMShadowMap \<Rightarrow> bool) \<Rightarrow> CSMShadowGenerator \<Rightarrow> bool" where
  "isReady ready_map s = isReady_loop ready_map True (p_cascades s)"

fun getShadowMaps_loop :: "ICascade list \<Rightarrow> RenderTargetTexture list \<Rightarrow> RenderTargetTexture list" where
  "getShadowMaps_loop [] rttList = rttList"
| "getShadowMaps_loop (c # cs) rttList =
     (case getShadowMap (generator c) of
        Some rtt \<Rightarrow> getShadowMaps_loop cs (rttList @ [rtt])
      | None \<Rightarrow> getShadowMaps_loop cs rttList)"

definition getShadowMaps :: "CSMShadowGenerator \<Rightarrow> RenderTargetTexture list" where
  "getShadowMaps s = getShadowMaps_loop (p_cascades s) []"

definition recreate :: "CSMShadowGenerator \<Rightarrow> CSMShadowGenerator" where
  "recreate s =
     s\<lparr>p_cascades := map (\<lambda>c. c\<lparr>generator := recreate_map (generator c)\<rparr>) (p_cascades s)\<rparr>"

text \<open>
  \<^verbatim>\<open>dispose()\<close> disposes every renderer and then drops the cascade array; the disposed
  renderers are no longer reachable from the generator.
\<close>

definition dispose :: "CSMShadowGenerator \<Rightarrow> CSMShadowGenerator" where
  "dispose s =
     (let s1 = s\<lparr>p_cascades := map (\<lambda>c. c\<lparr>generator := dispose_map (generator c)\<rparr>) (p_cascades s)\<rparr>;
          s2 = s1\<lparr>p_cascades := []\<rparr>;
          s3 = s2\<lparr>p_numCascades := 0\<rparr>
      in case p_freezeShadowCastersBoundingInfoObservable s3 of
           Some ob \<Rightarrow> s3\<lparr>p_scene := observable_remove ob (p_scene s3),
                         p_freezeShadowCastersBoundingInfoObservable := None\<rparr>
         | None \<Rightarrow> s3)"

subsection \<open>The min/max reducer\<close>

text \<open>
  A post process of the reduction chain, as \<^verbatim>\<open>setSourceTexture\<close> configures it: the
  constructor arguments that vary (name, options, defines, texture type; fields
  \<open>pp_name\<close> to \<open>pp_textureType\<close>), the two flags set afterwards, what \<^verbatim>\<open>onApply\<close>
  uploads, and whether the callback that reads the pixel back and notifies
  \<^verbatim>\<open>onAfterReductionPerformed\<close> is attached. The options are a ratio (the initial pass)
  or an explicit width and height (the reduction passes). Render dimensions are
  integers.
\<close>

datatype PassOptions = Ratio real | Size int int

datatype OnApply =
  ApplySourceTexture real real
| ApplyFloatArray2 real real
| ApplyIntArray2 int int

record PostProcess =
  pp_name :: string
  pp_options :: PassOptions
  pp_defines :: string
  pp_textureType :: int
  autoClear :: bool
  forceFullscreenViewport :: bool
  onApply :: OnApply
  readsBack :: bool

record MinMaxReducer =
  onAfterReductionPerformed :: "nat list"
  r_sourceTexture :: "RenderTargetTexture option"
  r_reductionSteps :: "PostProcess list option"
  r_postProcessManagerDisposed :: bool
  r_onAfterUnbindObserver :: "nat option"
  r_forceFullscreenViewport :: bool
  r_activated :: bool

text \<open>\<^verbatim>\<open>Math.round\<close>: the nearest integer, a tie going up.\<close>

definition Math_round :: "real \<Rightarrow> int" where
  "Math_round x = \<lfloor>x + 1 / 2\<rfloor>"

definition deactivate :: "MinMaxReducer \<Rightarrow> MinMaxReducer" where
  "deactivate r =
     (if r_onAfterUnbindObserver r = None \<or> r_sourceTexture r = None then r
      else r\<lparr>r_onAfterUnbindObserver := None, r_activated := False\<rparr>)"

definition dispose_reducer :: "bool \<Rightarrow> MinMaxReducer \<Rightarrow> MinMaxReducer" where
  "dispose_reducer disposeAll r =
     (let r1 = (if disposeAll then r\<lparr>onAfterReductionPerformed := []\<rparr> else r);
          r2 = deactivate r1;
          r3 = (case r_reductionSteps r2 of
                  Some steps \<Rightarrow> r2\<lparr>r_reductionSteps := None\<rparr>
                | None \<Rightarrow> r2);
          r4 = (if disposeAll then r3\<lparr>r_postProcessManagerDisposed := True\<rparr> else r3)
      in r4\<lparr>r_sourceTexture := None\<rparr>)"

definition reductionPass :: "int \<Rightarrow> bool \<Rightarrow> int \<Rightarrow> int \<Rightarrow> nat \<Rightarrow> PostProcess" where
  "reductionPass type' ffv w h index =
     \<lparr>pp_name = ''Reduction phase '' @ string_of_nat index,
      pp_options = Size w h,
      pp_defines = ''#define '' @
        (if w = 1 \<and> h = 1 then ''LAST'' else if w = 1 \<or> h = 1 then ''ONEBEFORELAST'' else ''MAIN''),
      pp_textureType = type',
      autoClear = False,
      forceFullscreenViewport = ffv,
      onApply = (if w = 1 \<or> h = 1 then ApplyIntArray2 w h
                 else ApplyFloatArray2 (real_of_int w) (real_of_int h)),
      readsBack = (w = 1 \<and> h = 1)\<rparr>"

function reduction_loop ::
  "int \<Rightarrow> bool \<Rightarrow> int \<Rightarrow> int \<Rightarrow> nat \<Rightarrow> PostProcess list \<Rightarrow> PostProcess list" where
  "reduction_loop type' ffv w h index steps =
     (if w > 1 \<or> h > 1
      then
        (let w' = max (Math_round (real_of_int w / 2)) 1;
             h' = max (Math_round (real_of_int h / 2)) 1
         in reduction_loop type' ffv w' h' (Suc index)
              (steps @ [reductionPass type' ffv w' h' index]))
      else steps)"
  by pat_completeness auto
termination
proof -
  have half: "Math_round (real_of_int k / 2) = (k + 1) div 2" for k
  proof -
    have "real_of_int k / 2 + 1 / 2 = real_of_int (k + 1) / real_of_int 2"
      by (simp add: add_divide_distrib)
    then show ?thesis
      unfolding Math_round_def by (simp only: floor_divide_of_int_eq)
  qed
  show ?thesis
    by (relation "measure (\<lambda>(type', ffv, w, h, index, steps). nat (w - 1) + nat (h - 1))")
       (auto simp: half)
qed

declare reduction_loop.simps [simp del]

definition setSourceTexture ::
  "RenderTargetTexture \<Rightarrow> bool \<Rightarrow> int \<Rightarrow> bool \<Rightarrow> MinMaxReducer \<Rightarrow> MinMaxReducer" where
  "setSourceTexture sourceTexture depthRedux type' ffv r =
     (if map_option rttId (r_sourceTexture r) = Some (rttId sourceTexture) then r
      else
        (let r1 = dispose_reducer False r;
             r2 = r1\<lparr>r_sourceTexture := Some sourceTexture,
                     r_reductionSteps := Some [],
                     r_forceFullscreenViewport := ffv\<rparr>;
             w = renderWidth sourceTexture;
             h = renderHeight sourceTexture;
             reductionInitial =
               \<lparr>pp_name = ''Initial reduction phase'',
                pp_options = Ratio 1,
                pp_defines = ''#define INITIAL'' @
                  (if depthRedux then CHR 0x0A # ''#define DEPTH_REDUX'' else []),
                pp_textureType = type',
                autoClear = False,
                forceFullscreenViewport = ffv,
                onApply = ApplySourceTexture (real_of_int w) (real_of_int h),
                readsBack = False\<rparr>
         in r2\<lparr>r_reductionSteps := Some (reduction_loop type' ffv w h 1 [reductionInitial])\<rparr>))"

subsection \<open>Auxiliary definitions for the statements\<close>

text \<open>
  The split fraction the loop of \<^verbatim>\<open>setDistanceSplit\<close> stores for cascade \<open>i\<close>, written
  in the loop's own local variables.
\<close>

definition splitAt :: "CSMShadowGenerator \<Rightarrow> real \<Rightarrow> real \<Rightarrow> real \<Rightarrow> real \<Rightarrow> real \<Rightarrow> nat \<Rightarrow> real" where
  "splitAt s near cameraRange minZ' range' ratio i =
     (let p = real (i + 1) / real_of_int (p_numCascades s);
          log' = minZ' * (ratio powr p);
          uniform = minZ' + range' * p;
          d = p_lambda s * (log' - uniform) + uniform
      in (d - near) / cameraRange)"

text \<open>
  The split scheme in the words of the specification (section 4.1): the split fraction
  of cascade \<open>i\<close> as a function of lambda, minDistance, maxDistance, numCascades and
  the camera's near and far planes.
\<close>

definition spec_splitFraction ::
  "real \<Rightarrow> real \<Rightarrow> real \<Rightarrow> int \<Rightarrow> real \<Rightarrow> real \<Rightarrow> nat \<Rightarrow> real" where
  "spec_splitFraction lam minD maxD n cameraNear cameraFar i =
     (let cameraRange = cameraFar - cameraNear;
          minZ' = cameraNear + minD * cameraRange;
          maxZ' = cameraNear + maxD * cameraRange;
          range' = maxZ' - minZ';
          ratio = maxZ' / minZ';
          p = real (i + 1) / real_of_int n;
          logSplit = minZ' * ratio powr p;
          uniformSplit = minZ' + range' * p;
          d = lam * (logSplit - uniformSplit) + uniformSplit
      in (d - cameraNear) / cameraRange)"

text \<open>
  The cascade object the loop of \<^verbatim>\<open>_initializeCSM\<close> pushes.
\<close>

definition newCascade :: "(real \<Rightarrow> IShadowLight \<Rightarrow> bool \<Rightarrow> CSMShadowMap) \<Rightarrow> CSMShadowGenerator \<Rightarrow> ICascade" where
  "newCascade newMap s =
     \<lparr>generator = newMap (p_mapSize s) (p_light s)
                    (case p_usefulFloatFirst s of None \<Rightarrow> False | Some b \<Rightarrow> b),
      prevSplitDistance = 0,
      splitDistance = 0\<rparr>"

text \<open>
  A concrete scene, light and renderer, and the generators constructed on them with
  four and with three cascades; the closed instances below are evaluated on them.
\<close>

definition example_camera :: Camera where
  "example_camera = \<lparr>minZ = 1, maxZ = 101\<rparr>"

definition example_scene :: Scene where
  "example_scene =
     \<lparr>shadowsEnabled = True, activeCamera = Some example_camera,
      onBeforeRenderObservable = [], nextObserver = 0\<rparr>"

definition example_light :: IShadowLight where
  "example_light =
     \<lparr>typeID = 1, shadowEnabled = True, needCube = False,
      getDepthMinZ = minZ, getDepthMaxZ = maxZ,
      uniformBuffer = [], meshesMarkedAsLightDirty = 0\<rparr>"

definition example_map :: "real \<Rightarrow> IShadowLight \<Rightarrow> bool \<Rightarrow> CSMShadowMap" where
  "example_map mapSize light usefulFloatFirst =
     \<lparr>bias = 5 / 100000, normalBias = 0, blurBoxOffset = 1, blurScale = 2, blurKernel = 1,
      useKernelBlur = False, depthScale = 50, filter' = 0, filteringQuality = 0,
      contactHardeningLightSizeUVRatio = 1 / 10, darkness = 0, transparencyShadow = False,
      forceBackFacesOnly = False, depthClamp = True,
      viewMatrix = replicate 16 0, transformMatrix = replicate 16 0,
      shadowMap = Some \<lparr>rttId = 0, sizeWidth = mapSize, renderWidth = 8, renderHeight = 8\<rparr>,
      shadowMapForRendering = Some \<lparr>rttId = 0, sizeWidth = mapSize, renderWidth = 8, renderHeight = 8\<rparr>,
      frustumEdgeFalloff = 0, disposed = False, recreated = 0\<rparr>"

definition example_generator :: CSMShadowGenerator where
  "example_generator = construct example_map example_scene 1024 example_light 4 None"

definition example_generator3 :: CSMShadowGenerator where
  "example_generator3 = construct example_map example_scene 1024 example_light 3 None"

text \<open>
  One step of the reduction on one dimension:
  \<^verbatim>\<open>Math.max(Math.round(w / 2), 1)\<close>.
\<close>

definition halveDim :: "int \<Rightarrow> int" where
  "halveDim w = max (Math_round (real_of_int w / 2)) 1"

text \<open>
  The reducer as its constructor leaves it, a source texture of the given render size,
  and the first post process \<^verbatim>\<open>setSourceTexture\<close> creates.
\<close>

definition new_MinMaxReducer :: MinMaxReducer where
  "new_MinMaxReducer =
     \<lparr>onAfterReductionPerformed = [], r_sourceTexture = None, r_reductionSteps = None,
      r_postProcessManagerDisposed = False, r_onAfterUnbindObserver = None,
      r_forceFullscreenViewport = True, r_activated = False\<rparr>"

definition example_texture :: "int \<Rightarrow> int \<Rightarrow> RenderTargetTexture" where
  "example_texture w h = \<lparr>rttId = 7, sizeWidth = real_of_int w, renderWidth = w, renderHeight = h\<rparr>"

definition initialPass :: "RenderTargetTexture \<Rightarrow> bool \<Rightarrow> int \<Rightarrow> bool \<Rightarrow> PostProcess" where
  "initialPass tex depthRedux ty ffv =
     \<lparr>pp_name = ''Initial reduction phase'',
      pp_options = Ratio 1,
      pp_defines = ''#define INITIAL'' @
        (if depthRedux then CHR 0x0A # ''#define DEPTH_REDUX'' else []),
      pp_textureType = ty,
      autoClear = False,
      forceFullscreenViewport = ffv,
      onApply = ApplySourceTexture (real_of_int (renderWidth tex)) (real_of_int (renderHeight tex)),
      readsBack = False\<rparr>"

section \<open>Properties\<close>

subsection \<open>Broadcasting setters and the caster list\<close>

lemma fold_update_upt:
  "n \<le> length cs \<Longrightarrow>
   fold (\<lambda>i cs. cs[i := f (cs ! i)]) [0..<n] cs = map f (take n cs) @ drop n cs"
proof (induction n)
  case 0
  then show ?case by simp
next
  case (Suc n)
  then have n: "n < length cs" by simp
  have "fold (\<lambda>i cs. cs[i := f (cs ! i)]) [0..<Suc n] cs
        = (map f (take n cs) @ drop n cs)[n := f ((map f (take n cs) @ drop n cs) ! n)]"
    using Suc by simp
  also have "(map f (take n cs) @ drop n cs) ! n = cs ! n"
    using n by (simp add: nth_append)
  also have "(map f (take n cs) @ drop n cs)[n := f (cs ! n)]
             = map f (take n cs) @ (drop n cs)[0 := f (cs ! n)]"
    using n by (simp add: list_update_append)
  also have "(drop n cs)[0 := f (cs ! n)] = f (cs ! n) # drop (Suc n) cs"
    using n by (simp add: Cons_nth_drop_Suc [symmetric])
  also have "map f (take n cs) @ f (cs ! n) # drop (Suc n) cs = map f (take (Suc n) cs) @ drop (Suc n) cs"
    using n by (simp add: take_Suc_conv_app_nth)
  finally show ?case .
qed

lemma forEach_all:
  "p_cascades (forEach_cascade (getActiveCascades True s) f s) = map f (p_cascades s)"
  by (simp add: forEach_cascade_def getActiveCascades_def fold_update_upt)

lemma indexOf_ge: "- 1 \<le> indexOf xs x"
  by (induction xs) auto

lemma indexOf_notin: "indexOf xs x = - 1 \<longleftrightarrow> x \<notin> set xs"
proof (induction xs)
  case Nil
  then show ?case by simp
next
  case (Cons y ys)
  have "- 1 \<le> indexOf ys x" by (rule indexOf_ge)
  with Cons show ?case by auto
qed

lemma indexOf_nonneg: "x \<in> set xs \<Longrightarrow> 0 \<le> indexOf xs x"
  using indexOf_ge [of xs x] indexOf_notin [of xs x] by linarith

lemma splice1_indexOf:
  "x \<in> set xs \<Longrightarrow> splice1 (nat (indexOf xs x)) xs = remove1 x xs"
proof (induction xs)
  case Nil
  then show ?case by simp
next
  case (Cons y ys)
  show ?case
  proof (cases "y = x")
    case True
    then show ?thesis by (simp add: splice1_def)
  next
    case False
    with Cons.prems have in_ys: "x \<in> set ys" by simp
    then have "indexOf ys x \<noteq> - 1" "0 \<le> indexOf ys x"
      by (simp_all add: indexOf_notin indexOf_nonneg)
    then have "nat (indexOf (y # ys) x) = Suc (nat (indexOf ys x))"
      using False by (simp add: nat_add_distrib)
    then show ?thesis
      using False Cons.IH [OF in_ys] by (simp add: splice1_def)
  qed
qed

subsection \<open>The loop of the split scheme\<close>

lemma loop_step:
  "k < length cs \<Longrightarrow>
   setDistanceSplit_loop s near cr mz rg ra k cs =
   setDistanceSplit_loop s near cr mz rg ra (Suc k)
     (cs[k := (cs ! k)\<lparr>prevSplitDistance :=
                         (if k = 0 then p_minDistance s else splitDistance (cs ! (k - 1))),
                       splitDistance := splitAt s near cr mz rg ra k\<rparr>])"
  by (subst setDistanceSplit_loop.simps) (simp add: Let_def splitAt_def)

lemma loop_stop:
  "\<not> k < length cs \<Longrightarrow> setDistanceSplit_loop s near cr mz rg ra k cs = cs"
  by (subst setDistanceSplit_loop.simps) simp

lemma loop_length:
  "length (setDistanceSplit_loop s near cr mz rg ra k cs) = length cs"
proof (induction "length cs - k" arbitrary: k cs)
  case 0
  then show ?case by (simp add: loop_stop)
next
  case (Suc n)
  then have k: "k < length cs" by simp
  let ?cs = "cs[k := (cs ! k)\<lparr>prevSplitDistance :=
                         (if k = 0 then p_minDistance s else splitDistance (cs ! (k - 1))),
                       splitDistance := splitAt s near cr mz rg ra k\<rparr>]"
  have "n = length ?cs - Suc k" using Suc.hyps(2) by simp
  from Suc.hyps(1) [OF this] show ?case by (simp add: loop_step [OF k])
qed

lemma loop_below:
  "j < k \<Longrightarrow> setDistanceSplit_loop s near cr mz rg ra k cs ! j = cs ! j"
proof (induction "length cs - k" arbitrary: k cs)
  case 0
  then show ?case by (simp add: loop_stop)
next
  case (Suc n)
  then have k: "k < length cs" by simp
  let ?cs = "cs[k := (cs ! k)\<lparr>prevSplitDistance :=
                         (if k = 0 then p_minDistance s else splitDistance (cs ! (k - 1))),
                       splitDistance := splitAt s near cr mz rg ra k\<rparr>]"
  have n: "n = length ?cs - Suc k" using Suc.hyps(2) by simp
  have "j < Suc k" using Suc.prems by simp
  from Suc.hyps(1) [OF n this] Suc.prems show ?case by (simp add: loop_step [OF k])
qed

lemma loop_at:
  "k \<le> j \<Longrightarrow> j < length cs \<Longrightarrow>
   setDistanceSplit_loop s near cr mz rg ra k cs ! j =
   (cs ! j)\<lparr>prevSplitDistance :=
               (if j = 0 then p_minDistance s
                else if j = k then splitDistance (cs ! (j - 1))
                else splitAt s near cr mz rg ra (j - 1)),
             splitDistance := splitAt s near cr mz rg ra j\<rparr>"
proof (induction "length cs - k" arbitrary: k cs)
  case 0
  then show ?case by simp
next
  case (Suc n)
  then have k: "k < length cs" by simp
  let ?cs = "cs[k := (cs ! k)\<lparr>prevSplitDistance :=
                         (if k = 0 then p_minDistance s else splitDistance (cs ! (k - 1))),
                       splitDistance := splitAt s near cr mz rg ra k\<rparr>]"
  have n: "n = length ?cs - Suc k" using Suc.hyps(2) by simp
  show ?case
  proof (cases "j = k")
    case True
    have "setDistanceSplit_loop s near cr mz rg ra (Suc k) ?cs ! k = ?cs ! k"
      by (rule loop_below) simp
    then show ?thesis using True k by (simp add: loop_step [OF k])
  next
    case False
    with Suc.prems have j: "Suc k \<le> j" "j < length ?cs" by simp_all
    from Suc.hyps(1) [OF n j] False Suc.prems show ?thesis
      by (auto simp: loop_step [OF k])
  qed
qed

subsection \<open>Monotonicity and bounds of the blended split\<close>

lemma blend_convex:
  fixes lam a b :: real
  shows "lam * (a - b) + b = lam * a + (1 - lam) * b"
  by (simp add: algebra_simps)

lemma blend_mono:
  fixes lam a b a' b' :: real
  assumes "0 \<le> lam" "lam \<le> 1" "a \<le> a'" "b \<le> b'"
  shows "lam * (a - b) + b \<le> lam * (a' - b') + b'"
proof -
  have "lam * a \<le> lam * a'" using assms by (simp add: mult_left_mono)
  moreover have "(1 - lam) * b \<le> (1 - lam) * b'" using assms by (simp add: mult_left_mono)
  ultimately show ?thesis by (simp add: blend_convex)
qed

lemma blend_between:
  fixes lam a b lo hi :: real
  assumes "0 \<le> lam" "lam \<le> 1" "lo \<le> a" "a \<le> hi" "lo \<le> b" "b \<le> hi"
  shows "lo \<le> lam * (a - b) + b \<and> lam * (a - b) + b \<le> hi"
proof -
  have "lam * (lo - lo) + lo \<le> lam * (a - b) + b"
    using assms by (intro blend_mono) simp_all
  moreover have "lam * (a - b) + b \<le> lam * (hi - hi) + hi"
    using assms by (intro blend_mono) simp_all
  ultimately show ?thesis by simp
qed

lemma splitAt_mono:
  assumes lam: "0 \<le> p_lambda s" "p_lambda s \<le> 1"
    and n: "1 \<le> p_numCascades s"
    and cr: "0 < cr" and mz: "0 < mz" and rg: "0 \<le> rg" and ra: "1 \<le> ra"
    and ij: "i \<le> j"
  shows "splitAt s near cr mz rg ra i \<le> splitAt s near cr mz rg ra j"
proof -
  let ?n = "real_of_int (p_numCascades s)"
  let ?p = "real (i + 1) / ?n" and ?q = "real (j + 1) / ?n"
  have npos: "0 < ?n" using n by simp
  have pq: "?p \<le> ?q" using ij npos by (simp add: divide_right_mono)
  have "ra powr ?p \<le> ra powr ?q" using pq ra by (rule powr_mono)
  then have a: "mz * ra powr ?p \<le> mz * ra powr ?q" using mz by simp
  have "rg * ?p \<le> rg * ?q" using pq rg by (rule mult_left_mono)
  then have b: "mz + rg * ?p \<le> mz + rg * ?q" by simp
  have "p_lambda s * (mz * ra powr ?p - (mz + rg * ?p)) + (mz + rg * ?p)
        \<le> p_lambda s * (mz * ra powr ?q - (mz + rg * ?q)) + (mz + rg * ?q)"
    using lam a b by (rule blend_mono)
  then show ?thesis
    using cr by (simp add: splitAt_def Let_def divide_right_mono)
qed

lemma splitAt_bounds:
  assumes lam: "0 \<le> p_lambda s" "p_lambda s \<le> 1"
    and n: "1 \<le> p_numCascades s"
    and cr: "0 < cr" and mz: "0 < mz" and rg: "rg = mx - mz" and ra: "ra = mx / mz"
    and mx: "mz \<le> mx"
    and i: "int i < p_numCascades s"
  shows "(mz - near) / cr \<le> splitAt s near cr mz rg ra i \<and>
         splitAt s near cr mz rg ra i \<le> (mx - near) / cr"
proof -
  let ?n = "real_of_int (p_numCascades s)"
  let ?p = "real (i + 1) / ?n"
  have npos: "0 < ?n" using n by simp
  have p0: "0 \<le> ?p" using npos by simp
  have "real (i + 1) \<le> ?n" using i by linarith
  then have p1: "?p \<le> 1" using npos by simp
  have ra1: "1 \<le> ra" using ra mz mx by simp
  have "ra powr 0 \<le> ra powr ?p" using p0 ra1 by (rule powr_mono)
  then have lo: "1 \<le> ra powr ?p" using ra1 by simp
  have "ra powr ?p \<le> ra powr 1" using p1 ra1 by (rule powr_mono)
  then have hi: "ra powr ?p \<le> ra" using ra1 by simp
  have a1: "mz \<le> mz * ra powr ?p" using lo mz by simp
  have "mz * ra powr ?p \<le> mz * ra" using hi mz by simp
  also have "mz * ra = mx" using ra mz by simp
  finally have a2: "mz * ra powr ?p \<le> mx" .
  have rg0: "0 \<le> rg" using rg mx by simp
  have "0 \<le> rg * ?p" using rg0 p0 by (rule mult_nonneg_nonneg)
  then have b1: "mz \<le> mz + rg * ?p" by linarith
  have "rg * ?p \<le> rg * 1" using p1 rg0 by (rule mult_left_mono)
  then have b2: "mz + rg * ?p \<le> mx" using rg by simp
  have "mz \<le> p_lambda s * (mz * ra powr ?p - (mz + rg * ?p)) + (mz + rg * ?p) \<and>
        p_lambda s * (mz * ra powr ?p - (mz + rg * ?p)) + (mz + rg * ?p) \<le> mx"
    using lam a1 a2 b1 b2 by (rule blend_between)
  then show ?thesis
    using cr by (simp add: splitAt_def Let_def divide_right_mono)
qed

subsection \<open>What construction establishes\<close>

lemma setDistanceSplit_fields:
  "p_numCascades (setDistanceSplit s) = p_numCascades s"
  "p_activeCascade (setDistanceSplit s) = p_activeCascade s"
  "p_renderList (setDistanceSplit s) = p_renderList s"
  "p_scene (setDistanceSplit s) = p_scene s"
  "p_light (setDistanceSplit s) = p_light s"
  "p_lambda (setDistanceSplit s) = p_lambda s"
  "p_minDistance (setDistanceSplit s) = p_minDistance s"
  "p_maxDistance (setDistanceSplit s) = p_maxDistance s"
  "p_debug (setDistanceSplit s) = p_debug s"
  "length (p_cascades (setDistanceSplit s)) = length (p_cascades s)"
  by (simp_all add: setDistanceSplit_def Let_def loop_length split: option.split)

lemma setDistanceSplit_generator:
  "i < length (p_cascades s) \<Longrightarrow>
   generator (p_cascades (setDistanceSplit s) ! i) = generator (p_cascades s ! i)"
  by (simp add: setDistanceSplit_def Let_def loop_at split: option.split)

lemma init_loop_eq:
  "initializeCSM_loop newMap i s =
   s\<lparr>p_cascades := p_cascades s @ replicate (nat (p_numCascades s - int i)) (newCascade newMap s)\<rparr>"
proof (induction "nat (p_numCascades s - int i)" arbitrary: i s)
  case 0
  then have "\<not> int i < p_numCascades s" by simp
  then show ?case
    using 0 by (subst initializeCSM_loop.simps) simp
next
  case (Suc n)
  then have lt: "int i < p_numCascades s" by linarith
  let ?s = "s\<lparr>p_cascades := p_cascades s @ [newCascade newMap s]\<rparr>"
  have n: "n = nat (p_numCascades ?s - int (Suc i))" using Suc.hyps(2) by simp
  have nc: "newCascade newMap ?s = newCascade newMap s" by (simp add: newCascade_def)
  have "initializeCSM_loop newMap i s = initializeCSM_loop newMap (Suc i) ?s"
    using lt by (subst initializeCSM_loop.simps) (simp add: newCascade_def)
  also have "\<dots> = ?s\<lparr>p_cascades := p_cascades ?s @ replicate n (newCascade newMap s)\<rparr>"
    using Suc.hyps(1) [OF n] n nc by simp
  also have "\<dots> = s\<lparr>p_cascades := p_cascades s @ replicate (Suc n) (newCascade newMap s)\<rparr>"
    by simp
  finally show ?case using Suc.hyps(2) by simp
qed

lemma construct_fields:
  "p_numCascades (construct newMap scene mapSize light n u) = (if n < 1 then 1 else n)"
  "p_activeCascade (construct newMap scene mapSize light n u) = CASCADE_ALL"
  "p_renderList (construct newMap scene mapSize light n u) = []"
  "p_lambda (construct newMap scene mapSize light n u) = 7 / 10"
  "p_minDistance (construct newMap scene mapSize light n u) = 0"
  "p_maxDistance (construct newMap scene mapSize light n u) = 1"
  "p_debug (construct newMap scene mapSize light n u) = False"
  "p_light (construct newMap scene mapSize light n u) = markMeshesAsLightDirty light"
  "p_scene (construct newMap scene mapSize light n u) = snd (observable_add scene)"
  "length (p_cascades (construct newMap scene mapSize light n u)) = nat (if n < 1 then 1 else n)"
  by (simp_all add: construct_def initializeGenerator_def initializeCSM_def Let_def
      setDistanceSplit_fields init_loop_eq set_freezeShadowCastersBoundingInfo_def
      observable_add_def CASCADE_ALL_def)

lemma construct_generator:
  "i < nat (if n < 1 then 1 else n) \<Longrightarrow>
   generator (p_cascades (construct newMap scene mapSize light n u) ! i) =
   newMap mapSize (markMeshesAsLightDirty light) (case u of None \<Rightarrow> False | Some b \<Rightarrow> b)"
  by (simp add: construct_def initializeGenerator_def initializeCSM_def Let_def
      setDistanceSplit_generator init_loop_eq set_freezeShadowCastersBoundingInfo_def
      observable_add_def CASCADE_ALL_def newCascade_def)

lemma construct_invariant:
  "1 \<le> p_numCascades (construct newMap scene mapSize light n u) \<and>
   int (length (p_cascades (construct newMap scene mapSize light n u)))
     = p_numCascades (construct newMap scene mapSize light n u)"
  by (simp add: construct_fields)

subsection \<open>Split fractions\<close>

lemma example_generator_fields:
  "p_numCascades example_generator = 4"
  "p_activeCascade example_generator = - 1"
  "p_renderList example_generator = []"
  "p_lambda example_generator = 7 / 10"
  "p_minDistance example_generator = 0"
  "p_maxDistance example_generator = 1"
  "p_debug example_generator = False"
  "activeCamera (p_scene example_generator) = Some example_camera"
  "shadowsEnabled (p_scene example_generator) = True"
  "shadowEnabled (p_light example_generator) = True"
  "length (p_cascades example_generator) = 4"
  by (simp_all add: example_generator_def construct_fields example_scene_def example_light_def
      observable_add_def markMeshesAsLightDirty_def CASCADE_ALL_def)

lemma setDistanceSplit_at:
  assumes "activeCamera (p_scene s) = Some camera" "i < length (p_cascades s)"
  shows "p_cascades (setDistanceSplit s) ! i =
         (p_cascades s ! i)
           \<lparr>prevSplitDistance :=
              (if i = 0 then p_minDistance s
               else spec_splitFraction (p_lambda s) (p_minDistance s) (p_maxDistance s)
                      (p_numCascades s) (minZ camera) (maxZ camera) (i - 1)),
            splitDistance :=
              spec_splitFraction (p_lambda s) (p_minDistance s) (p_maxDistance s)
                (p_numCascades s) (minZ camera) (maxZ camera) i\<rparr>"
  using assms
  by (simp add: setDistanceSplit_def Let_def loop_at splitAt_def spec_splitFraction_def)

lemma spec_splitFraction_splitAt:
  "spec_splitFraction (p_lambda s) minD maxD (p_numCascades s) near far i =
   splitAt s near (far - near) (near + minD * (far - near))
     (near + maxD * (far - near) - (near + minD * (far - near)))
     ((near + maxD * (far - near)) / (near + minD * (far - near))) i"
  by (simp add: splitAt_def spec_splitFraction_def Let_def)

text \<open>
  The formula of the split scheme, as a function on the reals: its exact value is
  non-decreasing in the cascade index and lies between \<open>minDistance\<close> and
  \<open>maxDistance\<close>. This is a fact about the formula, not about the binary64 values
  the program stores, which rounding can move across these bounds.
\<close>

lemma spec_splitFraction_mono:
  fixes s :: CSMShadowGenerator
  assumes "0 < near" "near < far" "0 \<le> minD" "minD \<le> maxD"
    and "0 \<le> p_lambda s" "p_lambda s \<le> 1" "1 \<le> p_numCascades s" "i \<le> j"
  shows "spec_splitFraction (p_lambda s) minD maxD (p_numCascades s) near far i
         \<le> spec_splitFraction (p_lambda s) minD maxD (p_numCascades s) near far j"
proof -
  have cr: "0 < far - near" using assms by simp
  have "0 \<le> minD * (far - near)" using assms cr by simp
  then have mz: "0 < near + minD * (far - near)" using assms by linarith
  have le: "minD * (far - near) \<le> maxD * (far - near)"
    using assms cr by (simp add: mult_right_mono)
  then have rg: "0 \<le> near + maxD * (far - near) - (near + minD * (far - near))" by simp
  have ra: "1 \<le> (near + maxD * (far - near)) / (near + minD * (far - near))"
    using mz le by simp
  have "splitAt s near (far - near) (near + minD * (far - near))
          (near + maxD * (far - near) - (near + minD * (far - near)))
          ((near + maxD * (far - near)) / (near + minD * (far - near))) i
        \<le> splitAt s near (far - near) (near + minD * (far - near))
          (near + maxD * (far - near) - (near + minD * (far - near)))
          ((near + maxD * (far - near)) / (near + minD * (far - near))) j"
    using assms(5,6,7) cr mz rg ra assms(8) by (rule splitAt_mono)
  then show ?thesis by (simp only: spec_splitFraction_splitAt)
qed

lemma spec_splitFraction_bounds:
  fixes s :: CSMShadowGenerator
  assumes "0 < near" "near < far" "0 \<le> minD" "minD \<le> maxD"
    and "0 \<le> p_lambda s" "p_lambda s \<le> 1" "1 \<le> p_numCascades s" "int i < p_numCascades s"
  shows "minD \<le> spec_splitFraction (p_lambda s) minD maxD (p_numCascades s) near far i \<and>
         spec_splitFraction (p_lambda s) minD maxD (p_numCascades s) near far i \<le> maxD"
proof -
  have cr: "0 < far - near" using assms by simp
  have "0 \<le> minD * (far - near)" using assms cr by simp
  then have mz: "0 < near + minD * (far - near)" using assms by linarith
  have le: "near + minD * (far - near) \<le> near + maxD * (far - near)"
    using assms cr by (simp add: mult_right_mono)
  let ?f = "splitAt s near (far - near) (near + minD * (far - near))
          (near + maxD * (far - near) - (near + minD * (far - near)))
          ((near + maxD * (far - near)) / (near + minD * (far - near))) i"
  have "(near + minD * (far - near) - near) / (far - near) \<le> ?f \<and>
        ?f \<le> (near + maxD * (far - near) - near) / (far - near)"
    using assms(5,6,7) cr mz refl refl le assms(8) by (rule splitAt_bounds)
  then have "minD \<le> ?f \<and> ?f \<le> maxD" using cr by simp
  then show ?thesis by (simp only: spec_splitFraction_splitAt)
qed

text \<open>
  What \<^verbatim>\<open>setDistanceSplit\<close> copies, whatever the arithmetic: \<open>prevSplitDistance\<close> of
  cascade 0 is \<open>minDistance\<close>, and \<open>prevSplitDistance\<close> of a later cascade is the
  \<open>splitDistance\<close> just stored in the cascade before it.
\<close>

lemma setDistanceSplit_prev:
  assumes cam: "activeCamera (p_scene s) = Some camera" and i: "i < length (p_cascades s)"
  shows "prevSplitDistance (p_cascades (setDistanceSplit s) ! i) =
         (if i = 0 then p_minDistance s
          else splitDistance (p_cascades (setDistanceSplit s) ! (i - 1)))"
proof (cases "i = 0")
  case True
  then show ?thesis using setDistanceSplit_at [OF cam i] by simp
next
  case False
  then have "i - 1 < length (p_cascades s)" using i by simp
  from setDistanceSplit_at [OF cam this] setDistanceSplit_at [OF cam i] False
  show ?thesis by simp
qed

subsection \<open>The active cascade\<close>

text \<open>
  C4, as amended. For every integer value written through the setter: on a generator
  with \<open>numCascades \<ge> 1\<close> (as constructed, and until it is disposed) \<open>activeCascade\<close> is
  afterwards the ALL sentinel or lies in \<open>[0, numCascades)\<close>; in every state, writing a
  value that is not the sentinel and is negative or at least \<open>numCascades\<close> stores 0;
  and on a generator with \<open>numCascades \<le> 0\<close> (after \<^verbatim>\<open>dispose()\<close>) every write stores the
  sentinel or 0. The setter never changes \<open>numCascades\<close>.
\<close>

theorem activeCascade_setter_range:
  "(1 \<le> numCascades s \<longrightarrow>
      activeCascade (set_activeCascade index s) = CASCADE_ALL \<or>
      (0 \<le> activeCascade (set_activeCascade index s) \<and>
       activeCascade (set_activeCascade index s) < numCascades (set_activeCascade index s))) \<and>
   (index \<noteq> CASCADE_ALL \<and> (index < 0 \<or> numCascades s \<le> index) \<longrightarrow>
      activeCascade (set_activeCascade index s) = 0) \<and>
   (numCascades s \<le> 0 \<longrightarrow>
      activeCascade (set_activeCascade index s) = CASCADE_ALL \<or>
      activeCascade (set_activeCascade index s) = 0) \<and>
   numCascades (set_activeCascade index s) = numCascades s"
  by (simp add: set_activeCascade_def activeCascade_def numCascades_def CASCADE_ALL_def)

theorem activeCascade_setter_range_witness:
  "1 \<le> numCascades example_generator \<and>
   (7::int) \<noteq> CASCADE_ALL \<and> numCascades example_generator \<le> 7 \<and>
   activeCascade (set_activeCascade 7 example_generator) = 0 \<and>
   activeCascade (set_activeCascade 7 example_generator)
     < numCascades (set_activeCascade 7 example_generator) \<and>
   activeCascade (set_activeCascade 2 example_generator) = 2 \<and>
   numCascades (dispose example_generator) \<le> 0 \<and>
   activeCascade (set_activeCascade 7 (dispose example_generator)) = 0"
proof -
  have n: "numCascades example_generator = 4"
    by (simp add: numCascades_def example_generator_fields)
  have d: "numCascades (dispose example_generator) = 0"
    by (simp add: numCascades_def dispose_def Let_def split: option.split)
  have "activeCascade (set_activeCascade 2 example_generator) = 2"
    by (simp add: activeCascade_def set_activeCascade_def example_generator_fields CASCADE_ALL_def)
  then show ?thesis
    using activeCascade_setter_range [of example_generator 7]
      activeCascade_setter_range [of "dispose example_generator" 7] n d
    by (simp add: CASCADE_ALL_def)
qed

text \<open>
  C4 as stated fails on a disposed generator: \<open>numCascades\<close> is 0 there, and writing 0
  (or 3, which is clamped) leaves \<open>activeCascade = 0\<close>, which is neither the sentinel
  nor below \<open>numCascades\<close>.
\<close>

theorem activeCascade_setter_disposed_counterexample:
  "numCascades (set_activeCascade 0 (dispose example_generator)) = 0 \<and>
   activeCascade (set_activeCascade 0 (dispose example_generator)) = 0 \<and>
   activeCascade (set_activeCascade 0 (dispose example_generator)) \<noteq> CASCADE_ALL \<and>
   \<not> activeCascade (set_activeCascade 0 (dispose example_generator))
       < numCascades (set_activeCascade 0 (dispose example_generator)) \<and>
   activeCascade (set_activeCascade 3 (dispose example_generator)) = 0 \<and>
   \<not> activeCascade (set_activeCascade 3 (dispose example_generator))
       < numCascades (set_activeCascade 3 (dispose example_generator))"
proof -
  have d: "p_numCascades (dispose example_generator) = 0"
    by (simp add: dispose_def Let_def split: option.split)
  show ?thesis
    by (simp add: activeCascade_def numCascades_def set_activeCascade_def d CASCADE_ALL_def)
qed

text \<open>
  C10. Right after construction \<open>activeCascade\<close> is the ALL sentinel although at
  least one cascade exists; and whenever \<open>activeCascade\<close> is the sentinel, every
  per-cascade getter returns its unset value: \<open>-1\<close> for the numeric properties, false
  for the boolean ones, null for \<open>cascade\<close> and \<open>viewMatrix\<close>.
\<close>

theorem getters_unset_when_all:
  "activeCascade (construct newMap scene mapSize light n u) = CASCADE_ALL \<and>
   1 \<le> length (p_cascades (construct newMap scene mapSize light n u)) \<and>
   (activeCascade s = CASCADE_ALL \<longrightarrow>
      cascade s = None \<and> get_viewMatrix s = None \<and>
      get_bias s = - 1 \<and> get_normalBias s = - 1 \<and> get_blurBoxOffset s = - 1 \<and>
      get_blurScale s = - 1 \<and> get_blurKernel s = - 1 \<and> get_depthScale s = - 1 \<and>
      get_filter s = - 1 \<and> get_filteringQuality s = - 1 \<and>
      get_contactHardeningLightSizeUVRatio s = - 1 \<and> get_darkness s = - 1 \<and>
      get_useKernelBlur s = False \<and> get_transparencyShadow s = False \<and>
      get_forceBackFacesOnly s = False \<and> get_depthClamp s = False)"
proof (intro conjI impI)
  show "activeCascade (construct newMap scene mapSize light n u) = CASCADE_ALL"
    by (simp add: activeCascade_def construct_fields)
  have "1 \<le> nat (if n < 1 then 1 else n)" by (cases "n < 1") simp_all
  then show "1 \<le> length (p_cascades (construct newMap scene mapSize light n u))"
    by (simp only: construct_fields)
next
  assume "activeCascade s = CASCADE_ALL"
  then have neg: "p_activeCascade s = - 1"
    by (simp add: activeCascade_def CASCADE_ALL_def)
  show "cascade s = None" by (simp add: cascade_def neg)
  show "get_viewMatrix s = None" by (simp add: get_viewMatrix_def neg)
  show "get_bias s = - 1" by (simp add: get_bias_def neg)
  show "get_normalBias s = - 1" by (simp add: get_normalBias_def neg)
  show "get_blurBoxOffset s = - 1" by (simp add: get_blurBoxOffset_def neg)
  show "get_blurScale s = - 1" by (simp add: get_blurScale_def neg)
  show "get_blurKernel s = - 1" by (simp add: get_blurKernel_def neg)
  show "get_depthScale s = - 1" by (simp add: get_depthScale_def neg)
  show "get_filter s = - 1" by (simp add: get_filter_def neg)
  show "get_filteringQuality s = - 1" by (simp add: get_filteringQuality_def neg)
  show "get_contactHardeningLightSizeUVRatio s = - 1"
    by (simp add: get_contactHardeningLightSizeUVRatio_def neg)
  show "get_darkness s = - 1" by (simp add: get_darkness_def neg)
  show "get_useKernelBlur s = False" by (simp add: get_useKernelBlur_def neg)
  show "get_transparencyShadow s = False" by (simp add: get_transparencyShadow_def neg)
  show "get_forceBackFacesOnly s = False" by (simp add: get_forceBackFacesOnly_def neg)
  show "get_depthClamp s = False" by (simp add: get_depthClamp_def neg)
qed

lemma example_generator_map:
  "i < 4 \<Longrightarrow> generator (p_cascades example_generator ! i) = example_map 1024 (markMeshesAsLightDirty example_light) False"
  unfolding example_generator_def by (subst construct_generator) simp_all

theorem getters_unset_when_all_witness:
  "activeCascade example_generator = CASCADE_ALL \<and>
   length (p_cascades example_generator) = 4 \<and>
   bias (generator (p_cascades example_generator ! 0)) = 5 / 100000 \<and>
   get_bias example_generator = - 1 \<and>
   depthClamp (generator (p_cascades example_generator ! 0)) = True \<and>
   get_depthClamp example_generator = False \<and>
   cascade example_generator = None"
proof -
  have a: "activeCascade example_generator = CASCADE_ALL"
    by (simp add: activeCascade_def example_generator_fields CASCADE_ALL_def)
  have "bias (generator (p_cascades example_generator ! 0)) = 5 / 100000"
    "depthClamp (generator (p_cascades example_generator ! 0)) = True"
    by (simp_all add: example_generator_map example_map_def)
  then show ?thesis
    using getters_unset_when_all [of example_map example_scene 1024 example_light 4 None example_generator] a
    by (simp add: example_generator_fields)
qed

subsection \<open>Setters, disposal, casters\<close>

text \<open>
  C5. \<^verbatim>\<open>_getActiveCascades\<close> with its default \<open>forceAll = true\<close> selects every
  cascade, and each of the fourteen per-cascade setters stores its value in the
  renderer of every cascade, whatever \<open>activeCascade\<close> is, and changes nothing else in
  the cascades.
\<close>

theorem setters_broadcast:
  "getActiveCascades True s = [0..<length (p_cascades s)] \<and>
   p_cascades (set_bias r s) = map (\<lambda>c. c\<lparr>generator := (generator c)\<lparr>bias := r\<rparr>\<rparr>) (p_cascades s) \<and>
   p_cascades (set_normalBias r s) =
     map (\<lambda>c. c\<lparr>generator := (generator c)\<lparr>normalBias := r\<rparr>\<rparr>) (p_cascades s) \<and>
   p_cascades (set_blurBoxOffset r s) =
     map (\<lambda>c. c\<lparr>generator := (generator c)\<lparr>blurBoxOffset := r\<rparr>\<rparr>) (p_cascades s) \<and>
   p_cascades (set_blurScale r s) =
     map (\<lambda>c. c\<lparr>generator := (generator c)\<lparr>blurScale := r\<rparr>\<rparr>) (p_cascades s) \<and>
   p_cascades (set_blurKernel r s) =
     map (\<lambda>c. c\<lparr>generator := (generator c)\<lparr>blurKernel := r\<rparr>\<rparr>) (p_cascades s) \<and>
   p_cascades (set_useKernelBlur b s) =
     map (\<lambda>c. c\<lparr>generator := (generator c)\<lparr>useKernelBlur := b\<rparr>\<rparr>) (p_cascades s) \<and>
   p_cascades (set_depthScale r s) =
     map (\<lambda>c. c\<lparr>generator := (generator c)\<lparr>depthScale := r\<rparr>\<rparr>) (p_cascades s) \<and>
   p_cascades (set_filter k s) =
     map (\<lambda>c. c\<lparr>generator := (generator c)\<lparr>filter' := k\<rparr>\<rparr>) (p_cascades s) \<and>
   p_cascades (set_filteringQuality k s) =
     map (\<lambda>c. c\<lparr>generator := (generator c)\<lparr>filteringQuality := k\<rparr>\<rparr>) (p_cascades s) \<and>
   p_cascades (set_contactHardeningLightSizeUVRatio r s) =
     map (\<lambda>c. c\<lparr>generator := (generator c)\<lparr>contactHardeningLightSizeUVRatio := r\<rparr>\<rparr>)
       (p_cascades s) \<and>
   p_cascades (set_darkness r s) =
     map (\<lambda>c. c\<lparr>generator := (generator c)\<lparr>darkness := r\<rparr>\<rparr>) (p_cascades s) \<and>
   p_cascades (set_transparencyShadow b s) =
     map (\<lambda>c. c\<lparr>generator := (generator c)\<lparr>transparencyShadow := b\<rparr>\<rparr>) (p_cascades s) \<and>
   p_cascades (set_forceBackFacesOnly b s) =
     map (\<lambda>c. c\<lparr>generator := (generator c)\<lparr>forceBackFacesOnly := b\<rparr>\<rparr>) (p_cascades s) \<and>
   p_cascades (set_depthClamp b s) =
     map (\<lambda>c. c\<lparr>generator := (generator c)\<lparr>depthClamp := b\<rparr>\<rparr>) (p_cascades s)"
proof (intro conjI)
  show "getActiveCascades True s = [0..<length (p_cascades s)]"
    by (simp add: getActiveCascades_def)
qed (simp_all only: set_bias_def set_normalBias_def set_blurBoxOffset_def set_blurScale_def
      set_blurKernel_def set_useKernelBlur_def set_depthScale_def set_filter_def
      set_filteringQuality_def set_contactHardeningLightSizeUVRatio_def set_darkness_def
      set_transparencyShadow_def set_forceBackFacesOnly_def set_depthClamp_def forEach_all)

lemma set_activeCascade_cascades:
  "p_cascades (set_activeCascade i s) = p_cascades s"
  by (simp add: set_activeCascade_def)

theorem setters_broadcast_witness:
  "activeCascade (set_activeCascade 1 example_generator) = 1 \<and>
   map (\<lambda>c. bias (generator c))
     (p_cascades (set_bias 3 (set_activeCascade 1 example_generator))) = [3, 3, 3, 3] \<and>
   map (\<lambda>c. depthClamp (generator c))
     (p_cascades (set_depthClamp False (set_activeCascade 1 example_generator)))
     = [False, False, False, False]"
proof -
  have len: "length (p_cascades example_generator) = 4" by (rule example_generator_fields)
  then obtain a b c d where cs: "p_cascades example_generator = [a, b, c, d]"
    by (auto simp: length_Suc_conv numeral_eq_Suc)
  have "activeCascade (set_activeCascade 1 example_generator) = 1"
    by (simp add: activeCascade_def set_activeCascade_def example_generator_fields CASCADE_ALL_def)
  then show ?thesis
    using setters_broadcast [of "set_activeCascade 1 example_generator" 3 False 0]
    by (simp add: set_activeCascade_cascades cs)
qed

text \<open>
  C2, as amended. After \<^verbatim>\<open>dispose()\<close> \<open>numCascades\<close> reads 0 and the cascade list is
  empty; \<^verbatim>\<open>dispose()\<close> does not touch the caster list, so \<open>mustRender\<close> returns what it
  returned before the call.
\<close>

theorem dispose_keeps_casters:
  "numCascades (dispose s) = 0 \<and> p_cascades (dispose s) = [] \<and>
   renderList (dispose s) = renderList s \<and> mustRender (dispose s) = mustRender s"
  by (simp add: dispose_def numCascades_def renderList_def mustRender_def Let_def
      split: option.split)

text \<open>
  C2 as stated fails: on a freshly constructed generator to which one caster was
  added, \<open>mustRender\<close> is still true after \<^verbatim>\<open>dispose()\<close>.
\<close>

theorem dispose_mustRender_counterexample:
  "mustRender (dispose (addShadowCaster (Mesh 0 []) False example_generator)) \<and>
   numCascades (dispose (addShadowCaster (Mesh 0 []) False example_generator)) = 0"
  by (simp add: dispose_def numCascades_def renderList_def mustRender_def Let_def
      addShadowCaster_def split: option.split)

theorem dispose_keeps_casters_witness:
  "numCascades (dispose example_generator) = 0 \<and> \<not> mustRender (dispose example_generator)"
  using dispose_keeps_casters [of example_generator]
  by (simp add: mustRender_def renderList_def example_generator_fields)

text \<open>
  C8. \<^verbatim>\<open>addShadowCaster(mesh, false)\<close> followed by \<^verbatim>\<open>removeShadowCaster(mesh, false)\<close>
  leaves the caster list with the same elements, counted with multiplicity.
\<close>

theorem add_then_remove_caster:
  "mset (renderList (removeShadowCaster mesh False (addShadowCaster mesh False s)))
   = mset (renderList s)"
proof (cases mesh)
  case (Mesh i cs)
  have "mesh \<in> set (p_renderList s @ [mesh])" by simp
  then show ?thesis
    unfolding Mesh
    by (simp add: renderList_def addShadowCaster_def removeFirst_def Let_def
        indexOf_notin splice1_indexOf del: indexOf.simps)
qed

theorem add_then_remove_caster_witness:
  "mset (renderList (removeShadowCaster (Mesh 1 []) False
           (addShadowCaster (Mesh 1 []) False
              (addShadowCaster (Mesh 1 []) False example_generator))))
   = {#Mesh 1 []#}"
  using add_then_remove_caster [of "Mesh 1 []" "addShadowCaster (Mesh 1 []) False example_generator"]
  by (simp add: renderList_def addShadowCaster_def example_generator_fields)

subsection \<open>Which setters recompute the splits\<close>

lemma set_lambda_recomputes: "set_lambda v s = setDistanceSplit (s\<lparr>p_lambda := v\<rparr>)"
  by (simp add: set_lambda_def)

lemma construct_is_split:
  obtains s0 where
    "construct newMap scene mapSize light n u = setDistanceSplit s0"
    "activeCamera (p_scene s0) = activeCamera scene"
    "p_minDistance s0 = 0" "p_maxDistance s0 = 1" "p_lambda s0 = 7 / 10"
    "p_numCascades s0 = (if n < 1 then 1 else n)"
    "length (p_cascades s0) = nat (if n < 1 then 1 else n)"
proof -
  define s1 where "s1 = initializeCSM_loop newMap 0
    ((set_freezeShadowCastersBoundingInfo False
       \<lparr>p_activeCascade = CASCADE_ALL,
        p_numCascades = (if n < 1 then 1 else n),
        p_lambda = 0.7,
        p_minDistance = 0,
        p_maxDistance = 1,
        p_stabilizeCascades = False,
        p_useRightDirectionAsUpForOrthoProj = False,
        p_freezeShadowCastersBoundingInfo = False,
        p_freezeShadowCastersBoundingInfoObservable = None,
        p_debug = False,
        p_cascades = [],
        p_renderList = [],
        p_light = light,
        p_scene = scene,
        p_mapSize = mapSize,
        p_usefulFloatFirst = u,
        p_lightMatrices = replicate (nat ((if n < 1 then 1 else n) * 16)) 0,
        p_samplers = replicate (nat (if n < 1 then 1 else n)) None,
        p_cascadeDepths = replicate (nat (if n < 1 then 1 else n)) None\<rparr>)
     \<lparr>p_light := markMeshesAsLightDirty light\<rparr>)"
  define s0 where "s0 = (if p_activeCascade s1 \<noteq> CASCADE_ALL \<and> p_activeCascade s1 \<ge> p_numCascades s1
                then s1\<lparr>p_activeCascade := 0\<rparr> else s1)"
  have c: "construct newMap scene mapSize light n u = setDistanceSplit s0"
    by (simp add: construct_def initializeGenerator_def initializeCSM_def Let_def s0_def s1_def
        set_freezeShadowCastersBoundingInfo_def observable_add_def)
  have f: "activeCamera (p_scene s0) = activeCamera scene"
    "p_minDistance s0 = 0" "p_maxDistance s0 = 1" "p_lambda s0 = 7 / 10"
    "p_numCascades s0 = (if n < 1 then 1 else n)"
    "length (p_cascades s0) = nat (if n < 1 then 1 else n)"
    by (simp_all add: s0_def s1_def init_loop_eq set_freezeShadowCastersBoundingInfo_def
        observable_add_def)
  from c f show ?thesis by (rule that)
qed

lemma example_generator_cascade:
  assumes "i < 4"
  shows "prevSplitDistance (p_cascades example_generator ! i) =
           (if i = 0 then 0 else spec_splitFraction (7 / 10) 0 1 4 1 101 (i - 1))"
    and "splitDistance (p_cascades example_generator ! i) = spec_splitFraction (7 / 10) 0 1 4 1 101 i"
proof -
  obtain s0 where s0: "example_generator = setDistanceSplit s0"
    "activeCamera (p_scene s0) = activeCamera example_scene"
    "p_minDistance s0 = 0" "p_maxDistance s0 = 1" "p_lambda s0 = 7 / 10"
    "p_numCascades s0 = (if (4::int) < 1 then 1 else 4)"
    "length (p_cascades s0) = nat (if (4::int) < 1 then 1 else 4)"
    unfolding example_generator_def by (rule construct_is_split)
  have cam: "activeCamera (p_scene s0) = Some example_camera"
    using s0(2) by (simp add: example_scene_def)
  have i: "i < length (p_cascades s0)" using assms s0(7) by simp
  note at = setDistanceSplit_at [OF cam i, folded s0(1), unfolded s0(3,4,5,6)]
  show "prevSplitDistance (p_cascades example_generator ! i) =
           (if i = 0 then 0 else spec_splitFraction (7 / 10) 0 1 4 1 101 (i - 1))"
    by (simp add: at example_camera_def)
  show "splitDistance (p_cascades example_generator ! i) = spec_splitFraction (7 / 10) 0 1 4 1 101 i"
    by (simp add: at example_camera_def)
qed

text \<open>
  C3 at a failing input. On the generator constructed with four cascades and a
  camera with planes 1 and 101, assigning \<open>minDistance = 1/2\<close> leaves cascade 0 with
  \<open>prevSplitDistance = 0\<close> where the split algorithm run on the new value gives
  \<open>1/2\<close>; assigning \<open>maxDistance = 1/2\<close> leaves cascade 3 with \<open>splitDistance = 1\<close>
  where the algorithm gives \<open>1/2\<close>. Only the setter of \<open>lambda\<close> recomputes.
\<close>

theorem minDistance_setter_stale_splits:
  "activeCamera (p_scene example_generator) = Some example_camera \<and>
   minDistance (set_minDistance (1 / 2) example_generator) = 1 / 2 \<and>
   prevSplitDistance (p_cascades (set_minDistance (1 / 2) example_generator) ! 0) = 0 \<and>
   prevSplitDistance
     (p_cascades (setDistanceSplit (set_minDistance (1 / 2) example_generator)) ! 0) = 1 / 2 \<and>
   maxDistance (set_maxDistance (1 / 2) example_generator) = 1 / 2 \<and>
   splitDistance (p_cascades (set_maxDistance (1 / 2) example_generator) ! 3) = 1 \<and>
   splitDistance
     (p_cascades (setDistanceSplit (set_maxDistance (1 / 2) example_generator)) ! 3) = 1 / 2"
proof -
  let ?g = "set_minDistance (1 / 2) example_generator"
  let ?h = "set_maxDistance (1 / 2) example_generator"
  have cam0: "activeCamera (p_scene example_generator) = Some example_camera"
    by (rule example_generator_fields)
  have cam: "activeCamera (p_scene ?g) = Some example_camera"
    "activeCamera (p_scene ?h) = Some example_camera"
    by (simp_all add: set_minDistance_def set_maxDistance_def example_generator_fields)
  have len: "0 < length (p_cascades example_generator)" "3 < length (p_cascades example_generator)"
    "0 < length (p_cascades ?g)" "3 < length (p_cascades ?h)"
    by (simp_all add: set_minDistance_def set_maxDistance_def example_generator_fields)
  have old0: "prevSplitDistance (p_cascades example_generator ! 0) = 0"
    by (simp add: example_generator_cascade)
  have old3: "splitDistance (p_cascades example_generator ! 3) = 1"
    by (simp add: example_generator_cascade spec_splitFraction_def)
  have new0: "prevSplitDistance (p_cascades (setDistanceSplit ?g) ! 0) = 1 / 2"
    using setDistanceSplit_at [OF cam(1) len(3)] by (simp add: set_minDistance_def)
  have new3: "splitDistance (p_cascades (setDistanceSplit ?h) ! 3) = 1 / 2"
    using setDistanceSplit_at [OF cam(2) len(4)]
    by (simp add: set_maxDistance_def example_generator_fields spec_splitFraction_def
        example_camera_def)
  show ?thesis
    using cam0 old0 old3 new0 new3
    by (simp add: set_minDistance_def set_maxDistance_def minDistance_def maxDistance_def)
qed

subsection \<open>Shader defines and binding\<close>

lemma string_of_nat_0: "string_of_nat 0 = ''0''"
  by (subst string_of_nat.simps) (simp add: digit_char_def)

text \<open>
  C7. With shadows enabled on the scene and on the light and at least one cascade,
  after \<^verbatim>\<open>prepareDefines\<close> the table maps \<open>SHADOWCSM<i>\<close> to true,
  \<open>SHADOWCSM<i>_NUMCASCADES\<close> to \<open>numCascades\<close> and \<open>SHADOWCSM<i>_DEBUG\<close> to the debug
  flag, whatever the renderer's own \<^verbatim>\<open>prepareDefines\<close> did before; with
  \<open>numCascades = 3\<close> and light index 0 the entry \<open>SHADOWCSM0_NUMCASCADES\<close> is 3. Under
  any of the three disable conditions the table is returned unchanged.
\<close>

theorem prepareDefines_csm:
  "(shadowsEnabled (p_scene s) \<and> shadowEnabled (p_light s) \<and> 1 \<le> length (p_cascades s) \<longrightarrow>
      prepareDefines base d li s (''SHADOWCSM'' @ string_of_nat li) = Some (DefBool True) \<and>
      prepareDefines base d li s (''SHADOWCSM'' @ string_of_nat li @ ''_NUMCASCADES'')
        = Some (DefNumber (numCascades s)) \<and>
      prepareDefines base d li s (''SHADOWCSM'' @ string_of_nat li @ ''_DEBUG'')
        = Some (DefBool (p_debug s))) \<and>
   (shadowsEnabled (p_scene s) \<and> shadowEnabled (p_light s) \<and> 1 \<le> length (p_cascades s) \<and>
    numCascades s = 3 \<longrightarrow>
      prepareDefines base d 0 s ''SHADOWCSM0_NUMCASCADES'' = Some (DefNumber 3)) \<and>
   (\<not> shadowsEnabled (p_scene s) \<or> \<not> shadowEnabled (p_light s) \<or> length (p_cascades s) < 1 \<longrightarrow>
      prepareDefines base d li s = d)"
proof (intro conjI impI)
  assume en: "shadowsEnabled (p_scene s) \<and> shadowEnabled (p_light s) \<and> 1 \<le> length (p_cascades s)"
  then have c: "\<not> (\<not> shadowsEnabled (p_scene s) \<or> \<not> shadowEnabled (p_light s) \<or> length (p_cascades s) < 1)"
    by auto
  show "prepareDefines base d li s (''SHADOWCSM'' @ string_of_nat li) = Some (DefBool True)"
    unfolding prepareDefines_def Let_def using c by simp
  show "prepareDefines base d li s (''SHADOWCSM'' @ string_of_nat li @ ''_NUMCASCADES'')
        = Some (DefNumber (numCascades s))"
    unfolding prepareDefines_def Let_def numCascades_def using c by simp
  show "prepareDefines base d li s (''SHADOWCSM'' @ string_of_nat li @ ''_DEBUG'')
        = Some (DefBool (p_debug s))"
    unfolding prepareDefines_def Let_def using c by simp
next
  assume en: "shadowsEnabled (p_scene s) \<and> shadowEnabled (p_light s) \<and> 1 \<le> length (p_cascades s) \<and>
    numCascades s = 3"
  then have c: "\<not> (\<not> shadowsEnabled (p_scene s) \<or> \<not> shadowEnabled (p_light s) \<or> length (p_cascades s) < 1)"
    by auto
  from en have n: "p_numCascades s = 3" by (simp add: numCascades_def)
  show "prepareDefines base d 0 s ''SHADOWCSM0_NUMCASCADES'' = Some (DefNumber 3)"
    unfolding prepareDefines_def Let_def using c n by (simp add: string_of_nat_0)
next
  assume "\<not> shadowsEnabled (p_scene s) \<or> \<not> shadowEnabled (p_light s) \<or> length (p_cascades s) < 1"
  then show "prepareDefines base d li s = d"
    unfolding prepareDefines_def by simp
qed

theorem prepareDefines_csm_witness:
  "shadowsEnabled (p_scene example_generator3) \<and> shadowEnabled (p_light example_generator3) \<and>
   1 \<le> length (p_cascades example_generator3) \<and> numCascades example_generator3 = 3 \<and>
   prepareDefines (\<lambda>g d li. d) Map.empty 0 example_generator3 ''SHADOWCSM0_NUMCASCADES''
     = Some (DefNumber 3) \<and>
   prepareDefines (\<lambda>g d li. d) Map.empty 0 example_generator3 ''SHADOWCSM0'' = Some (DefBool True) \<and>
   prepareDefines (\<lambda>g d li. d) Map.empty 0 example_generator3 ''SHADOWCSM0_DEBUG''
     = Some (DefBool False) \<and>
   \<not> shadowsEnabled (p_scene (example_generator3\<lparr>p_scene := example_scene\<lparr>shadowsEnabled := False\<rparr>\<rparr>)) \<and>
   prepareDefines (\<lambda>g d li. d) Map.empty 0
     (example_generator3\<lparr>p_scene := example_scene\<lparr>shadowsEnabled := False\<rparr>\<rparr>) = Map.empty"
proof -
  have h: "shadowsEnabled (p_scene example_generator3)" "shadowEnabled (p_light example_generator3)"
    "1 \<le> length (p_cascades example_generator3)" "numCascades example_generator3 = 3"
    "p_debug example_generator3 = False"
    by (simp_all add: example_generator3_def construct_fields numCascades_def example_scene_def
        example_light_def observable_add_def markMeshesAsLightDirty_def)
  have d: "\<not> shadowsEnabled (p_scene (example_generator3\<lparr>p_scene := example_scene\<lparr>shadowsEnabled := False\<rparr>\<rparr>))"
    by simp
  show ?thesis
    using prepareDefines_csm [of example_generator3 "\<lambda>g d li. d" Map.empty 0]
      prepareDefines_csm [of "example_generator3\<lparr>p_scene := example_scene\<lparr>shadowsEnabled := False\<rparr>\<rparr>"
        "\<lambda>g d li. d" Map.empty 0] h d
    by (simp add: string_of_nat_0)
qed

text \<open>
  C6. \<^verbatim>\<open>bindShadowLight\<close> returns the generator (with its matrix, sampler and depth
  buffers and the light's uniform buffer) and the shader-binding target unchanged when
  the scene's shadows are disabled, the light's shadow flag is off, there is no
  cascade, there is no active camera, or cascade 0 has no shadow map.
\<close>

theorem bindShadowLight_noop:
  assumes "\<not> shadowsEnabled (p_scene s) \<or> \<not> shadowEnabled (p_light s) \<or> p_cascades s = [] \<or>
           activeCamera (p_scene s) = None \<or>
           (\<exists>c cs. p_cascades s = c # cs \<and> getShadowMap (generator c) = None)"
  shows "bindShadowLight lightIndex (s, effect) = (s, effect)"
  using assms
  by (auto simp: bindShadowLight_def Let_def split: option.split)

lemma bind_loop_step:
  "i < length cs \<Longrightarrow>
   bindShadowLight_loop li camera cr m cs i (s, e) =
   bindShadowLight_loop li camera cr m cs (Suc i)
     ((if filter' m = FILTER_PCF
       then s\<lparr>p_lightMatrices := copyToArray (getTransformMatrix (generator (cs ! i)))
                                   (p_lightMatrices s) (i * 16)\<rparr>
       else s\<lparr>p_lightMatrices := copyToArray (getTransformMatrix (generator (cs ! i)))
                                   (p_lightMatrices s) (i * 16),
              p_samplers := array_set (p_samplers s) i
                              (getShadowMapForRendering (generator (cs ! i)))\<rparr>)
        \<lparr>p_cascadeDepths := array_set (p_cascadeDepths s) i
                              (Some (minZ camera + splitDistance (cs ! i) * cr))\<rparr>,
      if filter' m = FILTER_PCF
      then e @ [SetDepthStencilTexture (''shadowSampler'' @ li @ ''_'' @ string_of_nat i)
                  (getShadowMapForRendering (generator (cs ! i)))]
      else e)"
  by (subst bindShadowLight_loop.simps) (simp add: Let_def)

lemma bind_loop_stop:
  "\<not> i < length cs \<Longrightarrow> bindShadowLight_loop li camera cr m cs i (s, e) = (s, e)"
  by (subst bindShadowLight_loop.simps) simp

lemma bind_loop_keeps:
  "p_cascades (fst (bindShadowLight_loop li camera cr m cs i (s, e))) = p_cascades s \<and>
   p_light (fst (bindShadowLight_loop li camera cr m cs i (s, e))) = p_light s \<and>
   p_scene (fst (bindShadowLight_loop li camera cr m cs i (s, e))) = p_scene s \<and>
   (\<exists>ys. snd (bindShadowLight_loop li camera cr m cs i (s, e)) = e @ ys)"
proof (induction "length cs - i" arbitrary: i s e)
  case 0
  then show ?case by (simp add: bind_loop_stop)
next
  case (Suc n)
  then have i: "i < length cs" and n: "n = length cs - Suc i" by simp_all
  obtain s' e' where step: "bindShadowLight_loop li camera cr m cs i (s, e) =
      bindShadowLight_loop li camera cr m cs (Suc i) (s', e')"
    and keep: "p_cascades s' = p_cascades s" "p_light s' = p_light s" "p_scene s' = p_scene s"
    and pre: "\<exists>zs. e' = e @ zs"
    using bind_loop_step [OF i, of li camera cr m s e] by (cases "filter' m = FILTER_PCF") auto
  from Suc.hyps(1) [OF n, of s' e'] obtain ys where
    ih: "p_cascades (fst (bindShadowLight_loop li camera cr m cs (Suc i) (s', e'))) = p_cascades s'"
      "p_light (fst (bindShadowLight_loop li camera cr m cs (Suc i) (s', e'))) = p_light s'"
      "p_scene (fst (bindShadowLight_loop li camera cr m cs (Suc i) (s', e'))) = p_scene s'"
      "snd (bindShadowLight_loop li camera cr m cs (Suc i) (s', e')) = e' @ ys"
    by blast
  from pre obtain zs where "e' = e @ zs" ..
  with ih(4) have "snd (bindShadowLight_loop li camera cr m cs (Suc i) (s', e')) = e @ (zs @ ys)"
    by simp
  then show ?case unfolding step using ih(1,2,3) keep by auto
qed

lemma bindShadowLight_binds:
  assumes "shadowsEnabled (p_scene s)" "shadowEnabled (p_light s)" "p_cascades s = c # cs"
    and "activeCamera (p_scene s) = Some camera" "getShadowMap (generator c) = Some shadowMap0"
  shows "\<exists>calls. snd (bindShadowLight li (s, effect)) =
           effect @ calls @ [SetArray (''cascadeSplits'' @ li)
                               (p_cascadeDepths (fst (bindShadowLight li (s, effect))))]"
    and "length (uniformBuffer (p_light (fst (bindShadowLight li (s, effect)))))
         = length (uniformBuffer (p_light s)) + 2"
proof -
  let ?loop = "bindShadowLight_loop li camera (maxZ camera - minZ camera) (generator c)
                 (c # cs) 0 (s, effect)"
  obtain s1 e1 where l: "?loop = (s1, e1)" by (cases ?loop)
  from bind_loop_keeps [of li camera "maxZ camera - minZ camera" "generator c" "c # cs" 0 s effect]
  obtain ys where k: "p_cascades s1 = p_cascades s" "p_light s1 = p_light s" "e1 = effect @ ys"
    unfolding l by auto
  show "\<exists>calls. snd (bindShadowLight li (s, effect)) =
           effect @ calls @ [SetArray (''cascadeSplits'' @ li)
                               (p_cascadeDepths (fst (bindShadowLight li (s, effect))))]"
    using assms l k by (simp add: bindShadowLight_def Let_def)
  show "length (uniformBuffer (p_light (fst (bindShadowLight li (s, effect)))))
         = length (uniformBuffer (p_light s)) + 2"
    using assms l k by (simp add: bindShadowLight_def Let_def)
qed

theorem bindShadowLight_noop_witness:
  "\<not> shadowsEnabled (p_scene (example_generator\<lparr>p_scene := example_scene\<lparr>shadowsEnabled := False\<rparr>\<rparr>)) \<and>
   bindShadowLight ''0'' (example_generator\<lparr>p_scene := example_scene\<lparr>shadowsEnabled := False\<rparr>\<rparr>, [])
     = (example_generator\<lparr>p_scene := example_scene\<lparr>shadowsEnabled := False\<rparr>\<rparr>, []) \<and>
   \<not> shadowEnabled (p_light (example_generator\<lparr>p_light := example_light\<lparr>shadowEnabled := False\<rparr>\<rparr>)) \<and>
   bindShadowLight ''0'' (example_generator\<lparr>p_light := example_light\<lparr>shadowEnabled := False\<rparr>\<rparr>, [])
     = (example_generator\<lparr>p_light := example_light\<lparr>shadowEnabled := False\<rparr>\<rparr>, []) \<and>
   p_cascades (dispose example_generator) = [] \<and>
   bindShadowLight ''0'' (dispose example_generator, []) = (dispose example_generator, []) \<and>
   activeCamera (p_scene (example_generator\<lparr>p_scene := example_scene\<lparr>activeCamera := None\<rparr>\<rparr>)) = None \<and>
   bindShadowLight ''0'' (example_generator\<lparr>p_scene := example_scene\<lparr>activeCamera := None\<rparr>\<rparr>, [])
     = (example_generator\<lparr>p_scene := example_scene\<lparr>activeCamera := None\<rparr>\<rparr>, []) \<and>
   getShadowMap (generator (hd (p_cascades (example_generator\<lparr>p_cascades :=
       map (\<lambda>c. c\<lparr>generator := (generator c)\<lparr>shadowMap := None\<rparr>\<rparr>) (p_cascades example_generator)\<rparr>))))
     = None \<and>
   bindShadowLight ''0'' (example_generator\<lparr>p_cascades :=
       map (\<lambda>c. c\<lparr>generator := (generator c)\<lparr>shadowMap := None\<rparr>\<rparr>) (p_cascades example_generator)\<rparr>, [])
     = (example_generator\<lparr>p_cascades :=
       map (\<lambda>c. c\<lparr>generator := (generator c)\<lparr>shadowMap := None\<rparr>\<rparr>) (p_cascades example_generator)\<rparr>, [])"
proof -
  have len: "length (p_cascades example_generator) = 4" by (rule example_generator_fields)
  then obtain a b c d where cs: "p_cascades example_generator = [a, b, c, d]"
    by (auto simp: length_Suc_conv numeral_eq_Suc)
  have d: "p_cascades (dispose example_generator) = []"
    by (simp add: dispose_def Let_def split: option.split)
  have e: "getShadowMap (generator (hd (p_cascades (example_generator\<lparr>p_cascades :=
       map (\<lambda>c. c\<lparr>generator := (generator c)\<lparr>shadowMap := None\<rparr>\<rparr>) (p_cascades example_generator)\<rparr>))))
     = None"
    by (simp add: cs getShadowMap_def)
  have e': "\<exists>c cs. p_cascades (example_generator\<lparr>p_cascades :=
       map (\<lambda>c. c\<lparr>generator := (generator c)\<lparr>shadowMap := None\<rparr>\<rparr>) (p_cascades example_generator)\<rparr>)
       = c # cs \<and> getShadowMap (generator c) = None"
    by (simp add: cs getShadowMap_def)
  show ?thesis
    using bindShadowLight_noop [of "example_generator\<lparr>p_scene := example_scene\<lparr>shadowsEnabled := False\<rparr>\<rparr>" "''0''" "[]"]
      bindShadowLight_noop [of "example_generator\<lparr>p_light := example_light\<lparr>shadowEnabled := False\<rparr>\<rparr>" "''0''" "[]"]
      bindShadowLight_noop [of "dispose example_generator" "''0''" "[]"]
      bindShadowLight_noop [of "example_generator\<lparr>p_scene := example_scene\<lparr>activeCamera := None\<rparr>\<rparr>" "''0''" "[]"]
      bindShadowLight_noop [of "example_generator\<lparr>p_cascades :=
       map (\<lambda>c. c\<lparr>generator := (generator c)\<lparr>shadowMap := None\<rparr>\<rparr>) (p_cascades example_generator)\<rparr>" "''0''" "[]"]
      d e e'
    by simp
qed

subsection \<open>The reduction chain\<close>

lemma Math_round_half: "Math_round (real_of_int w / 2) = (w + 1) div 2"
proof -
  have "real_of_int w / 2 + 1 / 2 = real_of_int (w + 1) / real_of_int 2"
    by (simp add: add_divide_distrib)
  then show ?thesis
    unfolding Math_round_def by (simp only: floor_divide_of_int_eq)
qed

lemma halveDim_ge1: "1 \<le> halveDim w"
  by (simp add: halveDim_def)

lemma halveDim_one: "halveDim 1 = 1"
  using Math_round_half [of 1] by (simp add: halveDim_def)

lemma halveDim_less: "1 < w \<Longrightarrow> halveDim w < w"
  by (simp add: halveDim_def Math_round_half)

lemma halveDim_le: "1 \<le> w \<Longrightarrow> halveDim w \<le> w"
  by (simp add: halveDim_def Math_round_half)

lemma reduction_loop_step:
  "1 < w \<or> 1 < h \<Longrightarrow>
   reduction_loop ty f w h idx steps =
   reduction_loop ty f (halveDim w) (halveDim h) (Suc idx)
     (steps @ [reductionPass ty f (halveDim w) (halveDim h) idx])"
  by (subst reduction_loop.simps) (simp add: Let_def halveDim_def)

lemma reduction_loop_stop:
  "\<not> (1 < w \<or> 1 < h) \<Longrightarrow> reduction_loop ty f w h idx steps = steps"
  by (subst reduction_loop.simps) simp

lemma halveDim_measure:
  assumes "1 < w \<or> 1 < h"
  shows "nat (halveDim w - 1) + nat (halveDim h - 1) < nat (w - 1) + nat (h - 1)"
  using assms by (auto simp: halveDim_def Math_round_half)

lemma reduction_loop_append:
  "reduction_loop ty f w h idx steps = steps @ reduction_loop ty f w h idx []"
proof (induction "nat (w - 1) + nat (h - 1)" arbitrary: w h idx steps rule: less_induct)
  case less
  show ?case
  proof (cases "1 < w \<or> 1 < h")
    case True
    note m = halveDim_measure [OF True]
    let ?p = "reductionPass ty f (halveDim w) (halveDim h) idx"
    have "reduction_loop ty f w h idx steps
          = (steps @ [?p]) @ reduction_loop ty f (halveDim w) (halveDim h) (Suc idx) []"
      using less [OF m, of "Suc idx" "steps @ [?p]"] by (simp add: reduction_loop_step [OF True])
    moreover have "reduction_loop ty f w h idx []
          = [?p] @ reduction_loop ty f (halveDim w) (halveDim h) (Suc idx) []"
      using less [OF m, of "Suc idx" "[?p]"] by (simp add: reduction_loop_step [OF True])
    ultimately show ?thesis by simp
  next
    case False
    then show ?thesis by (simp add: reduction_loop_stop)
  qed
qed

lemma chain_unfold:
  "reduction_loop ty f w h idx [] =
   (if 1 < w \<or> 1 < h
    then reductionPass ty f (halveDim w) (halveDim h) idx
         # reduction_loop ty f (halveDim w) (halveDim h) (Suc idx) []
    else [])"
proof (cases "1 < w \<or> 1 < h")
  case True
  have "reduction_loop ty f w h idx [] =
        reduction_loop ty f (halveDim w) (halveDim h) (Suc idx)
          [reductionPass ty f (halveDim w) (halveDim h) idx]"
    using reduction_loop_step [OF True, of ty f idx "[]"] by simp
  also have "\<dots> = [reductionPass ty f (halveDim w) (halveDim h) idx]
        @ reduction_loop ty f (halveDim w) (halveDim h) (Suc idx) []"
    by (rule reduction_loop_append)
  finally show ?thesis using True by simp
next
  case False
  then show ?thesis by (simp add: reduction_loop_stop)
qed

lemma chain_Cons:
  "1 < w \<or> 1 < h \<Longrightarrow>
   reduction_loop ty f w h idx [] =
   reductionPass ty f (halveDim w) (halveDim h) idx
     # reduction_loop ty f (halveDim w) (halveDim h) (Suc idx) []"
  by (subst chain_unfold) simp

lemma chain_Nil:
  "\<not> (1 < w \<or> 1 < h) \<Longrightarrow> reduction_loop ty f w h idx [] = []"
  by (subst chain_unfold) simp

lemma chain_nonempty:
  "k < length (reduction_loop ty f w h idx []) \<Longrightarrow> 1 < w \<or> 1 < h"
  by (rule ccontr) (simp add: chain_Nil)

lemma chain_dims:
  "k < length (reduction_loop ty f w h idx []) \<Longrightarrow>
   pp_options (reduction_loop ty f w h idx [] ! k) =
     Size ((halveDim ^^ Suc k) w) ((halveDim ^^ Suc k) h)"
proof (induction k arbitrary: w h idx)
  case 0
  note c = chain_nonempty [OF 0]
  show ?case by (simp add: chain_Cons [OF c] reductionPass_def)
next
  case (Suc k)
  note c = chain_nonempty [OF Suc.prems]
  from Suc.prems
  have "k < length (reduction_loop ty f (halveDim w) (halveDim h) (Suc idx) [])"
    by (simp add: chain_Cons [OF c])
  from Suc.IH [OF this] show ?case
    by (simp add: chain_Cons [OF c] funpow_swap1)
qed

lemma chain_last:
  assumes "1 \<le> w" "1 \<le> h" "1 < w \<or> 1 < h"
  shows "reduction_loop ty f w h idx [] \<noteq> [] \<and>
         pp_options (last (reduction_loop ty f w h idx [])) = Size 1 1 \<and>
         pp_defines (last (reduction_loop ty f w h idx [])) = ''#define LAST''"
  using assms
proof (induction "nat (w - 1) + nat (h - 1)" arbitrary: w h idx rule: less_induct)
  case less
  note c = less.prems(3)
  note m = halveDim_measure [OF c]
  show ?case
  proof (cases "1 < halveDim w \<or> 1 < halveDim h")
    case True
    from less.hyps [OF m halveDim_ge1 halveDim_ge1 True, of "Suc idx"]
    show ?thesis by (simp add: chain_Cons [OF c])
  next
    case False
    then have one: "halveDim w = 1" "halveDim h = 1"
      using halveDim_ge1 [of w] halveDim_ge1 [of h] by linarith+
    have "reduction_loop ty f (halveDim w) (halveDim h) (Suc idx) [] = []"
      using False by (rule chain_Nil)
    then show ?thesis
      by (simp add: chain_Cons [OF c] one reductionPass_def)
  qed
qed

lemma chain_only_last:
  "k < length (reduction_loop ty f w h idx []) \<Longrightarrow>
   pp_defines (reduction_loop ty f w h idx [] ! k) = ''#define LAST'' \<Longrightarrow>
   Suc k = length (reduction_loop ty f w h idx [])"
proof (induction k arbitrary: w h idx)
  case 0
  note c = chain_nonempty [OF 0(1)]
  from 0(2) have "halveDim w = 1 \<and> halveDim h = 1"
    by (simp add: chain_Cons [OF c] reductionPass_def split: if_splits)
  then have "reduction_loop ty f (halveDim w) (halveDim h) (Suc idx) [] = []"
    by (simp add: chain_Nil)
  then show ?case by (simp add: chain_Cons [OF c])
next
  case (Suc k)
  note c = chain_nonempty [OF Suc.prems(1)]
  from Suc.prems
  have "k < length (reduction_loop ty f (halveDim w) (halveDim h) (Suc idx) [])"
    "pp_defines (reduction_loop ty f (halveDim w) (halveDim h) (Suc idx) [] ! k) = ''#define LAST''"
    by (simp_all add: chain_Cons [OF c])
  from Suc.IH [OF this] show ?case
    by (simp add: chain_Cons [OF c])
qed

lemma chain_onebeforelast:
  "k < length (reduction_loop ty f w h idx []) \<Longrightarrow>
   pp_options (reduction_loop ty f w h idx [] ! k) = Size a b \<Longrightarrow> (a = 1) \<noteq> (b = 1) \<Longrightarrow>
   pp_defines (reduction_loop ty f w h idx [] ! k) = ''#define ONEBEFORELAST''"
proof (induction k arbitrary: w h idx)
  case 0
  note c = chain_nonempty [OF 0(1)]
  from 0(2,3) show ?case
    by (auto simp: chain_Cons [OF c] reductionPass_def)
next
  case (Suc k)
  note c = chain_nonempty [OF Suc.prems(1)]
  from Suc.prems
  have "k < length (reduction_loop ty f (halveDim w) (halveDim h) (Suc idx) [])"
    "pp_options (reduction_loop ty f (halveDim w) (halveDim h) (Suc idx) [] ! k) = Size a b"
    by (simp_all add: chain_Cons [OF c])
  from Suc.IH [OF this Suc.prems(3)] show ?case
    by (simp add: chain_Cons [OF c])
qed

lemma setSourceTexture_steps:
  assumes "map_option rttId (r_sourceTexture r) \<noteq> Some (rttId tex)"
  shows "r_reductionSteps (setSourceTexture tex depthRedux ty ffv r) =
   Some (initialPass tex depthRedux ty ffv
         # reduction_loop ty ffv (renderWidth tex) (renderHeight tex) 1 [])"
proof -
  have "r_reductionSteps (setSourceTexture tex depthRedux ty ffv r) =
        Some (reduction_loop ty ffv (renderWidth tex) (renderHeight tex) 1
                [initialPass tex depthRedux ty ffv])"
    unfolding setSourceTexture_def initialPass_def Let_def
    by (simp only: assms if_False) simp
  also have "reduction_loop ty ffv (renderWidth tex) (renderHeight tex) 1
                [initialPass tex depthRedux ty ffv]
             = [initialPass tex depthRedux ty ffv]
               @ reduction_loop ty ffv (renderWidth tex) (renderHeight tex) 1 []"
    by (rule reduction_loop_append)
  finally show ?thesis by simp
qed

lemma initialPass_not_last: "pp_defines (initialPass tex depthRedux ty ffv) \<noteq> ''#define LAST''"
  by (simp add: initialPass_def)

text \<open>
  C9, as amended. For a source texture other than the current one, with render width
  and height at least 1, \<^verbatim>\<open>setSourceTexture\<close> returns (the loop terminates) with a chain
  that starts with the initial pass; the pass at position \<open>k > 0\<close> has the dimensions
  obtained by halving the source's \<open>k\<close> times; only the pass in last position can be
  tagged LAST; a reduction pass with exactly one dimension equal to 1 is tagged
  ONEBEFORELAST. When the source is larger than 1x1 the chain has a last reduction
  pass, of dimensions 1x1 and tagged LAST. For a 1x1 source the chain is the initial
  pass alone.
\<close>

theorem setSourceTexture_chain:
  assumes other: "map_option rttId (r_sourceTexture r) \<noteq> Some (rttId tex)"
    and w: "1 \<le> renderWidth tex" and h: "1 \<le> renderHeight tex"
  shows "\<exists>steps. r_reductionSteps (setSourceTexture tex depthRedux ty ffv r) = Some steps \<and>
     1 \<le> length steps \<and> pp_options (hd steps) = Ratio 1 \<and>
     (\<forall>k. 0 < k \<and> k < length steps \<longrightarrow>
        pp_options (steps ! k) =
          Size ((halveDim ^^ k) (renderWidth tex)) ((halveDim ^^ k) (renderHeight tex))) \<and>
     (\<forall>k. k < length steps \<and> pp_defines (steps ! k) = ''#define LAST'' \<longrightarrow>
        Suc k = length steps) \<and>
     (\<forall>k a b. 0 < k \<and> k < length steps \<and> pp_options (steps ! k) = Size a b \<and>
        (a = 1) \<noteq> (b = 1) \<longrightarrow> pp_defines (steps ! k) = ''#define ONEBEFORELAST'') \<and>
     (1 < renderWidth tex \<or> 1 < renderHeight tex \<longrightarrow>
        2 \<le> length steps \<and> pp_options (last steps) = Size 1 1 \<and>
        pp_defines (last steps) = ''#define LAST'') \<and>
     (renderWidth tex = 1 \<and> renderHeight tex = 1 \<longrightarrow>
        steps = [initialPass tex depthRedux ty ffv])"
proof -
  let ?init = "initialPass tex depthRedux ty ffv"
  let ?chain = "reduction_loop ty ffv (renderWidth tex) (renderHeight tex) 1 []"
  let ?steps = "?init # ?chain"
  have s: "r_reductionSteps (setSourceTexture tex depthRedux ty ffv r) = Some ?steps"
    using other by (rule setSourceTexture_steps)
  have dims: "pp_options (?steps ! k) =
          Size ((halveDim ^^ k) (renderWidth tex)) ((halveDim ^^ k) (renderHeight tex))"
    if "0 < k \<and> k < length ?steps" for k
  proof -
    from that obtain j where j: "k = Suc j" "j < length ?chain" by (cases k) auto
    show ?thesis unfolding j(1) using chain_dims [OF j(2)] by simp
  qed
  have only: "Suc k = length ?steps"
    if "k < length ?steps \<and> pp_defines (?steps ! k) = ''#define LAST''" for k
  proof (cases k)
    case 0
    with that show ?thesis by (simp add: initialPass_not_last)
  next
    case (Suc j)
    with that have "j < length ?chain" "pp_defines (?chain ! j) = ''#define LAST''" by simp_all
    then have "Suc j = length ?chain" by (rule chain_only_last)
    then show ?thesis using Suc by simp
  qed
  have obl: "pp_defines (?steps ! k) = ''#define ONEBEFORELAST''"
    if "0 < k \<and> k < length ?steps \<and> pp_options (?steps ! k) = Size a b \<and> (a = 1) \<noteq> (b = 1)"
    for k a b
  proof -
    from that obtain j where j: "k = Suc j" "j < length ?chain" by (cases k) auto
    from that j have "pp_options (?chain ! j) = Size a b" "(a = 1) \<noteq> (b = 1)" by simp_all
    with j(2) have "pp_defines (?chain ! j) = ''#define ONEBEFORELAST''"
      by (rule chain_onebeforelast)
    then show ?thesis using j by simp
  qed
  have lst: "2 \<le> length ?steps \<and> pp_options (last ?steps) = Size 1 1 \<and>
        pp_defines (last ?steps) = ''#define LAST''"
    if "1 < renderWidth tex \<or> 1 < renderHeight tex"
  proof -
    from chain_last [OF w h that, of ty ffv 1]
    have ne: "?chain \<noteq> []" and o: "pp_options (last ?chain) = Size 1 1"
      and d: "pp_defines (last ?chain) = ''#define LAST''" by simp_all
    from ne have "1 \<le> length ?chain" by (cases ?chain) simp_all
    then show ?thesis using ne o d by simp
  qed
  have one: "?steps = [?init]" if "renderWidth tex = 1 \<and> renderHeight tex = 1"
    using that by (simp add: chain_Nil)
  have hd: "1 \<le> length ?steps \<and> pp_options (hd ?steps) = Ratio 1"
    by (simp add: initialPass_def)
  show ?thesis
  proof (intro exI [of _ ?steps] conjI allI impI)
    show "r_reductionSteps (setSourceTexture tex depthRedux ty ffv r) = Some ?steps" by (rule s)
    show "1 \<le> length ?steps" using hd by blast
    show "pp_options (hd ?steps) = Ratio 1" using hd by blast
  next
    fix k assume "0 < k \<and> k < length ?steps"
    then show "pp_options (?steps ! k) =
          Size ((halveDim ^^ k) (renderWidth tex)) ((halveDim ^^ k) (renderHeight tex))"
      by (rule dims)
  next
    fix k assume "k < length ?steps \<and> pp_defines (?steps ! k) = ''#define LAST''"
    then show "Suc k = length ?steps" by (rule only)
  next
    fix k a b
    assume "0 < k \<and> k < length ?steps \<and> pp_options (?steps ! k) = Size a b \<and> (a = 1) \<noteq> (b = 1)"
    then show "pp_defines (?steps ! k) = ''#define ONEBEFORELAST''" by (rule obl)
  next
    assume a: "1 < renderWidth tex \<or> 1 < renderHeight tex"
    show "2 \<le> length ?steps" using lst [OF a] by blast
    show "pp_options (last ?steps) = Size 1 1" using lst [OF a] by blast
    show "pp_defines (last ?steps) = ''#define LAST''" using lst [OF a] by blast
  next
    assume "renderWidth tex = 1 \<and> renderHeight tex = 1"
    then show "?steps = [?init]" by (rule one)
  qed
qed

theorem setSourceTexture_chain_witness:
  "map_option rttId (r_sourceTexture new_MinMaxReducer) \<noteq> Some (rttId (example_texture 5 2)) \<and>
   1 \<le> renderWidth (example_texture 5 2) \<and> 1 \<le> renderHeight (example_texture 5 2) \<and>
   (\<exists>steps. r_reductionSteps (setSourceTexture (example_texture 5 2) True 2 True new_MinMaxReducer)
        = Some steps \<and>
      2 \<le> length steps \<and> pp_options (steps ! 1) = Size 3 1 \<and>
      pp_defines (steps ! 1) = ''#define ONEBEFORELAST'' \<and>
      pp_options (last steps) = Size 1 1 \<and> pp_defines (last steps) = ''#define LAST'')"
proof -
  have h: "map_option rttId (r_sourceTexture new_MinMaxReducer) \<noteq> Some (rttId (example_texture 5 2))"
    "1 \<le> renderWidth (example_texture 5 2)" "1 \<le> renderHeight (example_texture 5 2)"
    by (simp_all add: new_MinMaxReducer_def example_texture_def)
  have w: "renderWidth (example_texture 5 2) = 5" "renderHeight (example_texture 5 2) = 2"
    by (simp_all add: example_texture_def)
  have hv: "halveDim 5 = 3" "halveDim 2 = 1"
    using Math_round_half [of 5] Math_round_half [of 2] by (simp_all add: halveDim_def)
  from setSourceTexture_chain [OF h, of True 2 True] obtain steps where
    s: "r_reductionSteps (setSourceTexture (example_texture 5 2) True 2 True new_MinMaxReducer)
        = Some steps"
    and d: "\<forall>k. 0 < k \<and> k < length steps \<longrightarrow>
        pp_options (steps ! k) =
          Size ((halveDim ^^ k) (renderWidth (example_texture 5 2)))
            ((halveDim ^^ k) (renderHeight (example_texture 5 2)))"
    and o: "\<forall>k a b. 0 < k \<and> k < length steps \<and> pp_options (steps ! k) = Size a b \<and>
        (a = 1) \<noteq> (b = 1) \<longrightarrow> pp_defines (steps ! k) = ''#define ONEBEFORELAST''"
    and l: "1 < renderWidth (example_texture 5 2) \<or> 1 < renderHeight (example_texture 5 2) \<longrightarrow>
        2 \<le> length steps \<and> pp_options (last steps) = Size 1 1 \<and>
        pp_defines (last steps) = ''#define LAST''"
    by blast
  from l w have l': "2 \<le> length steps" "pp_options (last steps) = Size 1 1"
    "pp_defines (last steps) = ''#define LAST''" by simp_all
  from d l'(1) have d1: "pp_options (steps ! 1) = Size 3 1"
    using w hv by (simp add: numeral_2_eq_2)
  from o [rule_format, of 1 3 1] d1 l'(1) have "pp_defines (steps ! 1) = ''#define ONEBEFORELAST''"
    by simp
  with s l' d1 h show ?thesis by blast
qed

text \<open>
  C9 as stated fails for a 1x1 source: the loop body never runs, the chain is the
  single pass tagged INITIAL, and no pass is tagged LAST.
\<close>

theorem setSourceTexture_1x1_counterexample:
  "renderWidth (example_texture 1 1) = 1 \<and> renderHeight (example_texture 1 1) = 1 \<and>
   map_option (map pp_defines)
     (r_reductionSteps (setSourceTexture (example_texture 1 1) False 2 True new_MinMaxReducer))
     = Some [''#define INITIAL''] \<and>
   map_option (map pp_options)
     (r_reductionSteps (setSourceTexture (example_texture 1 1) False 2 True new_MinMaxReducer))
     = Some [Ratio 1]"
proof -
  have "map_option rttId (r_sourceTexture new_MinMaxReducer) \<noteq> Some (rttId (example_texture 1 1))"
    by (simp add: new_MinMaxReducer_def)
  from setSourceTexture_steps [OF this, of False 2 True] show ?thesis
    by (simp add: example_texture_def chain_Nil initialPass_def)
qed

end
